theory Spec2Isabelle
  imports Complex_Main "HOL-Library.Word" "HOL-Library.AList" "HOL-Library.Monad_Syntax"
begin

unbundle bit_operations_syntax

section \<open>Sprite.js: sprites, clones and effect maps\<close>

text \<open>
  A shallow embedding of \<^verbatim>\<open>src/Sprite.js\<close>: the class \<^verbatim>\<open>_EffectMap\<close>, the helpers of
  \<^verbatim>\<open>SpriteBase\<close> (\<^verbatim>\<open>normalizeDeg\<close>, \<^verbatim>\<open>wrapClamp\<close>, the angle conversions) and the
  methods of \<^verbatim>\<open>Sprite\<close> (\<^verbatim>\<open>goto\<close>, \<^verbatim>\<open>move\<close>, \<^verbatim>\<open>glide\<close>, the setters, \<^verbatim>\<open>createClone\<close>,
  \<^verbatim>\<open>deleteThisClone\<close>).

  Numbers. A JavaScript number is an IEEE 754 double. The arithmetic of \<^verbatim>\<open>normalizeDeg\<close>,
  \<^verbatim>\<open>wrapClamp\<close> and \<^verbatim>\<open>move\<close> is modelled by operations that return the result of the
  double operation where that result is exact and \<open>None\<close> where the double operation
  rounds, overflows or yields NaN (see the subsection on numbers). \<^verbatim>\<open>glide\<close> is written
  over the reals, with \<open>None\<close> for its division by zero.

  Names. A field that the source writes with a leading underscore (\<^verbatim>\<open>_x\<close>) is the record
  field \<open>u_x\<close>; the field \<^verbatim>\<open>size\<close> is \<open>spr_size\<close>.
\<close>

subsection \<open>Values\<close>

text \<open>
  \<^verbatim>\<open>Color.js\<close> is not among the sources. A colour is an instance of the class \<^verbatim>\<open>Color\<close>;
  the model keeps the three channels that \<^verbatim>\<open>Color.rgb(r, g, b)\<close> receives.
\<close>

datatype color = RGB real real real

text \<open>
  The JavaScript values that are assigned to effects and to the pen colour and that
  variables and lists hold: the primitive values (a Symbol with its description) and the
  instances of \<^verbatim>\<open>Color\<close>.
\<close>

datatype jsval =
    JUndefined
  | JNull
  | JBool bool
  | JNum real
  | JStr string
  | JSymbol string
  | JColor color

text \<open>
  What a variable of a sprite holds: such a value, or a list. A list is a JavaScript
  array, an object that the methods of arrays change in place: the variable holds a
  reference to it (its index in the heap of arrays). (An instance of \<^verbatim>\<open>Color\<close> is an
  object too; no operation of this file changes one, and it is kept by value.)
\<close>

datatype varval = Value jsval | ListRef nat

text \<open>\<^verbatim>\<open>v instanceof Color\<close>\<close>

fun instanceof_Color :: "jsval \<Rightarrow> bool" where
  "instanceof_Color (JColor c) = True"
| "instanceof_Color v = False"

datatype js_error = TypeError | ConfigurationError

text \<open>
  A template literal \<^verbatim>\<open>`${v} ...`\<close> converts \<open>v\<close> to a string. The conversion of a
  Symbol throws a TypeError; every other value of the model has a string.
\<close>

fun template_throws :: "jsval \<Rightarrow> bool" where
  "template_throws (JSymbol d) = True"
| "template_throws v = False"

subsection \<open>Numbers\<close>

text \<open>
  The finite doubles are the reals \<open>m * 2 ^ e\<close> with whole numbers \<open>\<bar>m\<bar> < 2 ^ 53\<close> and
  \<open>- 1074 \<le> e \<le> 971\<close> (the two zeros are one value here; no operation below tells
  them apart).
\<close>

definition representable :: "real \<Rightarrow> bool" where
  "representable x \<longleftrightarrow>
     (\<exists>e \<in> {- 1074 .. 971 :: int}.
        real_of_int \<lfloor>x / 2 powi e\<rfloor> = x / 2 powi e \<and> \<bar>x / 2 powi e\<bar> < 2 ^ 53)"

text \<open>
  The result of an arithmetic operation whose exact value is \<open>x\<close>. The operations of
  IEEE 754 are correctly rounded: when \<open>x\<close> is a double, the operation returns \<open>x\<close>.
  When it is not, the operation returns a neighbour of \<open>x\<close> or an infinity; the model does
  not compute which and returns \<open>None\<close>. So wherever a function of the model returns
  \<open>Some v\<close> for arguments that are doubles, the code computes \<open>v\<close>.
\<close>

definition fl :: "real \<Rightarrow> real option" where
  "fl x = (if representable x then Some x else None)"

definition js_add :: "real \<Rightarrow> real \<Rightarrow> real option" where
  "js_add a b = fl (a + b)"

definition js_sub :: "real \<Rightarrow> real \<Rightarrow> real option" where
  "js_sub a b = fl (a - b)"

definition js_mul :: "real \<Rightarrow> real \<Rightarrow> real option" where
  "js_mul a b = fl (a * b)"

text \<open>A division by zero yields NaN or an infinity: \<open>None\<close>.\<close>

definition js_div :: "real \<Rightarrow> real \<Rightarrow> real option" where
  "js_div a b = (if b = 0 then None else fl (a / b))"




definition Math_floor :: "real \<Rightarrow> real option" where
  "Math_floor a = fl (of_int \<lfloor>a\<rfloor>)"

text \<open>
  \<^verbatim>\<open>Math.PI\<close> is the double next to \<open>\<pi>\<close>. \<^verbatim>\<open>Math.cos\<close> and \<^verbatim>\<open>Math.sin\<close> are
  approximations that the implementation chooses; the language fixes \<^verbatim>\<open>Math.cos(0)\<close> as 1
  and \<^verbatim>\<open>Math.sin(0)\<close> as 0. The model has these two values and \<open>None\<close> elsewhere.
\<close>

definition Math_PI :: real where
  "Math_PI = 884279719003555 / 2 ^ 48"

definition Math_cos :: "real \<Rightarrow> real option" where
  "Math_cos x = (if x = 0 then Some 1 else None)"

definition Math_sin :: "real \<Rightarrow> real option" where
  "Math_sin x = (if x = 0 then Some 0 else None)"

subsection \<open>Arithmetic helpers of SpriteBase\<close>

text \<open>\<^verbatim>\<open>return (deg * Math.PI) / 180;\<close>\<close>

definition degToRad :: "real \<Rightarrow> real option" where
  "degToRad deg = do { p \<leftarrow> js_mul deg Math_PI; js_div p 180 }"

text \<open>\<^verbatim>\<open>return -scratchDir + 90;\<close> The negation of a double is exact.\<close>

definition scratchToDeg :: "real \<Rightarrow> real option" where
  "scratchToDeg scratchDir = js_add (- scratchDir) 90"

definition scratchToRad :: "real \<Rightarrow> real option" where
  "scratchToRad scratchDir = do { deg \<leftarrow> scratchToDeg scratchDir; degToRad deg }"


text \<open>
  \<^verbatim>\<open>const range = (max - min) + 1; return n - (Math.floor((n - min) / range) * range);\<close>
\<close>

definition wrapClamp :: "real \<Rightarrow> real \<Rightarrow> real \<Rightarrow> real option" where
  "wrapClamp n mn mx = do {
     d \<leftarrow> js_sub mx mn;
     range \<leftarrow> js_add d 1;
     e \<leftarrow> js_sub n mn;
     q \<leftarrow> js_div e range;
     f \<leftarrow> Math_floor q;
     p \<leftarrow> js_mul f range;
     js_sub n p
   }"

subsection \<open>Effect maps\<close>

text \<open>
  An \<^verbatim>\<open>_EffectMap\<close> has the fields \<^verbatim>\<open>_bitmask\<close> and \<^verbatim>\<open>_effectValues\<close> and, for the
  \<open>i\<close>-th name of \<^verbatim>\<open>effectNames\<close>, an accessor property of that name whose setter
  writes the value and bit \<open>i\<close>. The table \<^verbatim>\<open>effectNames\<close> (of
  \<^verbatim>\<open>renderer/effectInfo.js\<close>) is not among the sources: it is the parameter \<open>names\<close>
  of every operation.

  The bit operators of JavaScript work on 32-bit integers, and \<^verbatim>\<open>1 << i\<close> shifts by
  \<open>i mod 32\<close>: the bitmask is a 32-bit word (\<open>sint\<close> reads the number that JavaScript
  stores).

  \<open>ownProps\<close> holds the ordinary properties that an assignment to a name without an
  accessor creates on the object. The names of the object's own fields and of its
  inherited members are not effect names and are not looked up there.
\<close>

record effect_map =
  u_bitmask :: "32 word"
  u_effectValues :: "(string \<times> jsval) list"
  ownProps :: "(string \<times> jsval) list"

fun index_of :: "string list \<Rightarrow> string \<Rightarrow> nat option" where
  "index_of [] n = None"
| "index_of (x # xs) n = (if x = n then Some 0 else map_option Suc (index_of xs n))"

text \<open>
  An object with string keys is an association list in the order of insertion:
  \<^verbatim>\<open>o[k] = v\<close> overwrites the value of a key that is there and appends a new key;
  \<^verbatim>\<open>o[k]\<close> is \<^verbatim>\<open>undefined\<close> for a key that is not there.
\<close>

definition assign :: "string \<Rightarrow> 'a \<Rightarrow> (string \<times> 'a) list \<Rightarrow> (string \<times> 'a) list" where
  "assign k v kvs = AList.update k v kvs"

definition lookup :: "(string \<times> jsval) list \<Rightarrow> string \<Rightarrow> jsval" where
  "lookup kvs k = (case map_of kvs k of Some v \<Rightarrow> v | None \<Rightarrow> JUndefined)"

text \<open>
  The constructor's loop. \<^verbatim>\<open>Object.defineProperty\<close> creates a property that is not
  configurable, so that defining the accessor of a name a second time throws a TypeError.
\<close>

fun define_effects :: "string list \<Rightarrow> effect_map \<Rightarrow> js_error + effect_map" where
  "define_effects [] m = Inr m"
| "define_effects (n # ns) m =
     (if n \<in> set (map fst (u_effectValues m)) then Inl TypeError
      else define_effects ns (m\<lparr>u_effectValues := assign n (JNum 0) (u_effectValues m)\<rparr>))"

definition new_EffectMap :: "string list \<Rightarrow> js_error + effect_map" where
  "new_EffectMap names =
     define_effects names \<lparr>u_bitmask = 0, u_effectValues = [], ownProps = []\<rparr>"

text \<open>The getter and the setter that the constructor defines for the \<open>i\<close>-th name.\<close>

definition accessor_get :: "string \<Rightarrow> effect_map \<Rightarrow> jsval" where
  "accessor_get effectName m = lookup (u_effectValues m) effectName"

definition accessor_set :: "nat \<Rightarrow> string \<Rightarrow> jsval \<Rightarrow> effect_map \<Rightarrow> effect_map" where
  "accessor_set i effectName val m =
     m\<lparr>u_effectValues := assign effectName val (u_effectValues m),
       u_bitmask := (if val = JNum 0 then u_bitmask m AND NOT (push_bit (i mod 32) 1)
                     else u_bitmask m OR push_bit (i mod 32) 1)\<rparr>"

text \<open>
  Reading and writing the property \<open>name\<close> of an effect map (\<^verbatim>\<open>m[name]\<close>,
  \<^verbatim>\<open>m[name] = val\<close>): the accessor when the name has one, an ordinary property
  otherwise. Neither throws. (A name of another member of the object is neither; such
  names are set apart by \<open>property_get\<close> and \<open>property_set\<close> below.)
\<close>

definition effect_get :: "string list \<Rightarrow> effect_map \<Rightarrow> string \<Rightarrow> js_error + jsval" where
  "effect_get names m name =
     (case index_of names name of
        Some i \<Rightarrow> Inr (accessor_get name m)
      | None \<Rightarrow> Inr (lookup (ownProps m) name))"

definition effect_set :: "string list \<Rightarrow> effect_map \<Rightarrow> string \<Rightarrow> jsval \<Rightarrow> js_error + effect_map" where
  "effect_set names m name val =
     (case index_of names name of
        Some i \<Rightarrow> Inr (accessor_set i name val m)
      | None \<Rightarrow> Inr (m\<lparr>ownProps := assign name val (ownProps m)\<rparr>))"

text \<open>\<^verbatim>\<open>_clone\<close>: a new map, then \<^verbatim>\<open>m[effectName] = this[effectName]\<close> for every key.\<close>

fun copy_effects :: "string list \<Rightarrow> effect_map \<Rightarrow> string list \<Rightarrow> effect_map \<Rightarrow> js_error + effect_map" where
  "copy_effects names src [] m = Inr m"
| "copy_effects names src (k # ks) m =
     (case effect_get names src k of
        Inl e \<Rightarrow> Inl e
      | Inr v \<Rightarrow> (case effect_set names m k v of
                   Inl e \<Rightarrow> Inl e
                 | Inr m' \<Rightarrow> copy_effects names src ks m'))"

definition effect_clone :: "string list \<Rightarrow> effect_map \<Rightarrow> js_error + effect_map" where
  "effect_clone names this =
     (case new_EffectMap names of
        Inl e \<Rightarrow> Inl e
      | Inr m \<Rightarrow> copy_effects names this (map fst (u_effectValues this)) m)"

definition effect_clear :: "effect_map \<Rightarrow> js_error + effect_map" where
  "effect_clear m =
     Inr (m\<lparr>u_effectValues := map (\<lambda>(k, v). (k, JNum 0)) (u_effectValues m), u_bitmask := 0\<rparr>)"

text \<open>
  The members that every object inherits from \<^verbatim>\<open>Object.prototype\<close>, and the members that
  an \<^verbatim>\<open>_EffectMap\<close> has apart from its accessors: its two fields, the methods of the
  class, and the inherited ones. An access by one of these names reads or writes that
  member (an assignment to \<^verbatim>\<open>_bitmask\<close> replaces the bitmask, one to \<^verbatim>\<open>_effectValues\<close>
  replaces the object of the values, one to \<^verbatim>\<open>clear\<close> hides the method). The model does
  not follow these accesses: \<open>None\<close>.
\<close>

definition object_member_names :: "string list" where
  "object_member_names =
     [''constructor'', ''__proto__'', ''__defineGetter__'', ''__defineSetter__'',
      ''__lookupGetter__'', ''__lookupSetter__'', ''hasOwnProperty'', ''isPrototypeOf'',
      ''propertyIsEnumerable'', ''toLocaleString'', ''toString'', ''valueOf'']"

definition member_names :: "string list" where
  "member_names = [''_bitmask'', ''_effectValues'', ''_clone'', ''clear''] @ object_member_names"

definition property_get :: "string list \<Rightarrow> effect_map \<Rightarrow> string \<Rightarrow> (js_error + jsval) option" where
  "property_get names m name =
     (if name \<in> set member_names then None else Some (effect_get names m name))"

definition property_set ::
  "string list \<Rightarrow> effect_map \<Rightarrow> string \<Rightarrow> jsval \<Rightarrow> (js_error + effect_map) option" where
  "property_set names m name val =
     (if name \<in> set member_names then None else Some (effect_set names m name val))"

text \<open>
  The bits that the values call for: bit \<open>i\<close> for every \<open>i\<close> whose name has a value
  other than the number 0.
\<close>

definition enabled_bits :: "string list \<Rightarrow> (string \<times> jsval) list \<Rightarrow> nat list" where
  "enabled_bits names vals = filter (\<lambda>i. lookup vals (names ! i) \<noteq> JNum 0) [0..<length names]"

definition union_bits :: "nat list \<Rightarrow> 32 word" where
  "union_bits js = foldr (\<lambda>i w. push_bit i 1 OR w) js 0"

definition effect_consistent :: "string list \<Rightarrow> effect_map \<Rightarrow> bool" where
  "effect_consistent names m \<longleftrightarrow>
     map fst (u_effectValues m) = names \<and>
     u_bitmask m = union_bits (enabled_bits names (u_effectValues m))"

text \<open>The effect maps that the operations of the class produce.\<close>

inductive effect_reachable :: "string list \<Rightarrow> effect_map \<Rightarrow> bool" for names :: "string list" where
  reach_new: "new_EffectMap names = Inr m \<Longrightarrow> effect_reachable names m"
| reach_set: "effect_reachable names m \<Longrightarrow> effect_set names m name val = Inr m' \<Longrightarrow> effect_reachable names m'"
| reach_clear: "effect_reachable names m \<Longrightarrow> effect_clear m = Inr m' \<Longrightarrow> effect_reachable names m'"
| reach_clone: "effect_reachable names m \<Longrightarrow> effect_clone names m = Inr m' \<Longrightarrow> effect_reachable names m'"

text \<open>
  The effect maps whose members are as the class made them: those that the constructor
  builds for a table without a member name, and those that assignments to names other
  than the member names, \<^verbatim>\<open>clear()\<close> and \<^verbatim>\<open>_clone()\<close> make of them.
\<close>

inductive property_reachable :: "string list \<Rightarrow> effect_map \<Rightarrow> bool" for names :: "string list" where
  intact_new:
    "set names \<inter> set member_names = {} \<Longrightarrow> new_EffectMap names = Inr m \<Longrightarrow> property_reachable names m"
| intact_set:
    "property_reachable names m \<Longrightarrow> property_set names m name val = Some (Inr m') \<Longrightarrow>
     property_reachable names m'"
| intact_clear:
    "property_reachable names m \<Longrightarrow> effect_clear m = Inr m' \<Longrightarrow> property_reachable names m'"
| intact_clone:
    "property_reachable names m \<Longrightarrow> effect_clone names m = Inr m' \<Longrightarrow> property_reachable names m'"

subsection \<open>Sprites\<close>

datatype rotation_style = ALL_AROUND | LEFT_RIGHT | DONT_ROTATE

text \<open>
  \<^verbatim>\<open>Trigger.js\<close> is not among the sources. The source reads the fields \<^verbatim>\<open>trigger\<close>,
  \<^verbatim>\<open>options\<close> and \<^verbatim>\<open>_script\<close> of a trigger and names the kinds \<^verbatim>\<open>Trigger.CLONE_START\<close>,
  \<^verbatim>\<open>Trigger.BROADCAST\<close> and \<^verbatim>\<open>Trigger.BACKDROP_CHANGED\<close>; a script is named by a number.
\<close>

datatype trigger_kind = CLONE_START | BROADCAST | BACKDROP_CHANGED | OTHER_KIND string

record Trigger =
  trigger :: trigger_kind
  options :: "(string \<times> jsval) list"
  u_script :: nat

text \<open>
  Modelled from the spec: \<^verbatim>\<open>Trigger.matches\<close> (of \<^verbatim>\<open>Trigger.js\<close>). "Match succeeds iff
  firedKind equals the trigger's kind AND every key present in firedOptions
  equality-matches the same key in the trigger's options". The precondition on the
  candidate entity concerns key-press and click triggers only.
\<close>

definition matches :: "Trigger \<Rightarrow> trigger_kind \<Rightarrow> (string \<times> jsval) list \<Rightarrow> bool" where
  "matches tr firedKind firedOptions \<longleftrightarrow>
     trigger tr = firedKind \<and> list_all (\<lambda>(k, v). map_of (options tr) k = Some v) firedOptions"

text \<open>
  Modelled from the spec: the effect chain of \<^verbatim>\<open>Sound.js\<close>, "an opaque resource" with an
  operation \<^verbatim>\<open>clone(config)\<close>. A chain is either constructed for a sprite or the clone of a
  chain made for a sprite (the sprite whose \<^verbatim>\<open>getSoundsPlayedByMe\<close> the configuration
  binds); an \<^verbatim>\<open>AudioEffectMap\<close> is made for a chain.
\<close>

datatype effect_chain = NewChain nat | ChainClone effect_chain nat

datatype audio_effect_map = AudioEffectMap effect_chain

record speech_bubble =
  bubble_text :: string
  bubble_style :: string
  bubble_timeout :: "nat option"

text \<open>
  A sprite. Objects that several sprites can share or that are replaced on cloning are
  kept in heaps, and the sprite holds the reference: \<open>parent\<close> and \<open>clones\<close> refer to
  sprites, \<open>effects\<close> to an effect map, \<open>u_vars\<close> to the object of the variables. The
  arrays \<open>costumes\<close> and \<open>sounds\<close> are kept by value (a clone shares them with its origin;
  nothing in this file writes to them).
\<close>

record sprite =
  u_costumeNumber :: real
  u_layerOrder :: real
  triggers :: "Trigger list"
  costumes :: "string list"
  sounds :: "string list"
  effectChain :: effect_chain
  effects :: nat
  audioEffects :: audio_effect_map
  u_vars :: nat
  u_x :: real
  u_y :: real
  u_direction :: real
  rotationStyle :: rotation_style
  spr_size :: real
  visible :: bool
  parent :: "nat option"
  clones :: "nat list"
  u_penDown :: bool
  penSize :: real
  u_penColor :: jsval
  u_speechBubble :: speech_bubble

text \<open>A call \<^verbatim>\<open>renderer.penLine(from, to, color, size)\<close>.\<close>

type_synonym pen_line = "(real \<times> real) \<times> (real \<times> real) \<times> jsval \<times> real"

text \<open>
  The methods that touch one sprite only take the sprite and, where they call the
  renderer or the console, the list of the calls made so far.
\<close>


text \<open>
  \<^verbatim>\<open>set costumeNumber(number)\<close>. A \<^verbatim>\<open>Sprite\<close> has no method \<^verbatim>\<open>fireBackdropChanged\<close>, so
  the second statement of the setter does nothing. \<open>None\<close>: a step of \<^verbatim>\<open>wrapClamp\<close> is
  not exact (or divides by zero) and the model does not determine the number that is
  stored.
\<close>

definition costumeNumber_set :: "real \<Rightarrow> sprite \<Rightarrow> sprite option" where
  "costumeNumber_set number s =
     map_option (\<lambda>n. s\<lparr>u_costumeNumber := n\<rparr>) (wrapClamp number 1 (real (length (costumes s))))"

definition goto :: "real \<Rightarrow> real \<Rightarrow> sprite \<times> pen_line list \<Rightarrow> sprite \<times> pen_line list" where
  "goto x y sr =
     (case sr of (s, r) \<Rightarrow>
        if x = u_x s \<and> y = u_y s then (s, r)
        else (s\<lparr>u_x := x, u_y := y\<rparr>,
              if u_penDown s then r @ [((u_x s, u_y s), (x, y), u_penColor s, penSize s)] else r))"

text \<open>
  \<^verbatim>\<open>move(dist)\<close>: \<^verbatim>\<open>goto(this._x + dist * Math.cos(moveDir), this._y + dist * Math.sin(moveDir))\<close>.
  \<open>None\<close>: the model does not determine the position (a step is not exact, or the
  cosine or the sine is taken away from 0).
\<close>

definition move :: "real \<Rightarrow> sprite \<times> pen_line list \<Rightarrow> (sprite \<times> pen_line list) option" where
  "move distance sr = do {
     moveDir \<leftarrow> scratchToRad (u_direction (fst sr));
     c \<leftarrow> Math_cos moveDir;
     dx \<leftarrow> js_mul distance c;
     x \<leftarrow> js_add (u_x (fst sr)) dx;
     s \<leftarrow> Math_sin moveDir;
     dy \<leftarrow> js_mul distance s;
     y \<leftarrow> js_add (u_y (fst sr)) dy;
     Some (goto x y sr)
   }"

text \<open>
  \<^verbatim>\<open>set penColor(color)\<close>. The console is the list of the values that
  \<^verbatim>\<open>console.error\<close> was called about; its message is the template literal
  \<^verbatim>\<open>`${color} is not a valid penColor. Try using the Color class!`\<close>. \<open>Inl e\<close>: the setter
  throws \<open>e\<close>, with the sprite and the console as they were.
\<close>

definition penColor_set :: "jsval \<Rightarrow> sprite \<times> jsval list \<Rightarrow> js_error + sprite \<times> jsval list" where
  "penColor_set c sc =
     (case sc of (s, console) \<Rightarrow>
        if instanceof_Color c then Inr (s\<lparr>u_penColor := c\<rparr>, console)
        else if template_throws c then Inl TypeError
        else Inr (s, console @ [c]))"

subsection \<open>The generator glide\<close>

text \<open>
  \<^verbatim>\<open>*glide(seconds, x, y)\<close> is a generator: each \<^verbatim>\<open>next()\<close> runs it to the next
  \<^verbatim>\<open>yield\<close> or to its end. Its suspended state is the frame of its locals. A clock
  reading (\<^verbatim>\<open>new Date()\<close>) is a whole number of milliseconds.
\<close>

record glide_frame =
  g_seconds :: real
  g_x :: real
  g_y :: real
  startTime :: int
  startX :: real
  startY :: real
  g_t :: real

datatype 'a generator_result = Yielded 'a | Returned

definition interpolate :: "real \<Rightarrow> real \<Rightarrow> real \<Rightarrow> real" where
  "interpolate a b t = a + (b - a) * t"

text \<open>
  The body of the loop up to its \<^verbatim>\<open>yield\<close>, at the clock reading \<open>now\<close>. With
  \<^verbatim>\<open>seconds * 1000\<close> equal to 0 the quotient is NaN or infinite: \<open>None\<close>.
\<close>

definition glide_body ::
  "int \<Rightarrow> glide_frame \<Rightarrow> sprite \<times> pen_line list \<Rightarrow> (glide_frame \<times> sprite \<times> pen_line list) option" where
  "glide_body now f sr =
     (if g_seconds f * 1000 = 0 then None
      else let t = real_of_int (now - startTime f) / (g_seconds f * 1000)
           in Some (f\<lparr>g_t := t\<rparr>,
                    goto (interpolate (startX f) (g_x f) t) (interpolate (startY f) (g_y f) t) sr))"

text \<open>
  The first \<^verbatim>\<open>next()\<close>: \<open>t0\<close> is the clock reading that becomes \<^verbatim>\<open>startTime\<close>, \<open>now\<close> the
  reading inside the loop. A \<^verbatim>\<open>do ... while\<close> loop runs its body before it tests.
\<close>

definition glide_start ::
  "int \<Rightarrow> int \<Rightarrow> real \<Rightarrow> real \<Rightarrow> real \<Rightarrow> sprite \<times> pen_line list \<Rightarrow>
     (glide_frame \<times> sprite \<times> pen_line list) option" where
  "glide_start t0 now seconds x y sr =
     glide_body now
       \<lparr>g_seconds = seconds, g_x = x, g_y = y, startTime = t0,
        startX = u_x (fst sr), startY = u_y (fst sr), g_t = 0\<rparr> sr"

text \<open>
  A later \<^verbatim>\<open>next()\<close> resumes after the \<^verbatim>\<open>yield\<close>: the test \<^verbatim>\<open>t < 1\<close> on the \<open>t\<close> of the
  previous round, then the body again, or the end of the generator.
\<close>

definition glide_resume ::
  "int \<Rightarrow> glide_frame \<Rightarrow> sprite \<times> pen_line list \<Rightarrow>
     (glide_frame generator_result \<times> sprite \<times> pen_line list) option" where
  "glide_resume now f sr =
     (if g_t f < 1 then map_option (\<lambda>(f', sr'). (Yielded f', sr')) (glide_body now f sr)
      else Some (Returned, sr))"

text \<open>One \<^verbatim>\<open>next()\<close> at each clock reading of the list, until the generator ends.\<close>

fun glide_run ::
  "glide_frame \<Rightarrow> sprite \<times> pen_line list \<Rightarrow> int list \<Rightarrow>
     (glide_frame generator_result \<times> sprite \<times> pen_line list) option" where
  "glide_run f sr [] = Some (Yielded f, sr)"
| "glide_run f sr (now # ticks) =
     (case glide_resume now f sr of
        None \<Rightarrow> None
      | Some (Returned, sr') \<Rightarrow> Some (Returned, sr')
      | Some (Yielded f', sr') \<Rightarrow> glide_run f' sr' ticks)"

text \<open>The whole call: the first \<^verbatim>\<open>next()\<close> at \<open>t0\<close>, then one at each later reading.\<close>

definition glide ::
  "real \<Rightarrow> real \<Rightarrow> real \<Rightarrow> int \<Rightarrow> int list \<Rightarrow> sprite \<times> pen_line list \<Rightarrow>
     (glide_frame generator_result \<times> sprite \<times> pen_line list) option" where
  "glide seconds x y t0 ticks sr =
     (case glide_start t0 t0 seconds x y sr of
        None \<Rightarrow> None
      | Some (f, sr') \<Rightarrow> glide_run f sr' ticks)"

subsection \<open>The project: heaps and running triggers\<close>

text \<open>
  A reference to an object is its index in the heap of its class; \<^verbatim>\<open>new\<close> appends to
  the heap. \<open>varMaps\<close> holds the objects of the variables (\<^verbatim>\<open>_vars\<close>) and \<open>arrays\<close> the
  arrays that variables refer to. \<open>runningTriggers\<close> is the list of the project's running
  scripts, each with the sprite that it runs for (\<^verbatim>\<open>{trigger, target}\<close>).
\<close>

record project =
  sprites :: "sprite list"
  effectMaps :: "effect_map list"
  varMaps :: "(string \<times> varval) list list"
  arrays :: "jsval list list"
  runningTriggers :: "(Trigger \<times> nat) list"

text \<open>
  Modelled from the spec: \<^verbatim>\<open>Project._startTriggers\<close> (of \<^verbatim>\<open>Project.js\<close>). "start(trigger,
  entity): instantiates the bound script ..., places it in Pending": the scripts join the
  running ones and run at a later tick.
\<close>

definition startTriggers :: "(Trigger \<times> nat) list \<Rightarrow> project \<Rightarrow> project" where
  "startTriggers ts st = st\<lparr>runningTriggers := runningTriggers st @ ts\<rparr>"

text \<open>
  \<^verbatim>\<open>let original = this; while (original.parent) { original = original.parent; }\<close>
  \<open>None\<close>: the loop does not end (or a reference points outside the heap, which no
  execution produces).
\<close>

partial_function (option) find_original :: "sprite list \<Rightarrow> nat \<Rightarrow> nat option" where
  "find_original sp original =
     (if original < length sp then
        (case parent (sp ! original) of
           None \<Rightarrow> Some original
         | Some p \<Rightarrow> find_original sp p)
      else None)"

text \<open>
  \<^verbatim>\<open>createClone()\<close>. \<^verbatim>\<open>Object.assign\<close> copies every field of \<open>this\<close>; the assignments
  that follow replace the triggers, the variables (\<^verbatim>\<open>Object.assign({}, this._vars)\<close>: a new
  object with the same entries, so that an entry that is a reference is the same
  reference in both),
  the speech bubble, the effects (\<^verbatim>\<open>_clone()\<close>), the effect chain (a clone of the chain
  of \<open>original\<close>), the audio effects, \<open>clones\<close> and \<open>parent\<close>. The result is \<open>Some (Inl e)\<close>
  when \<^verbatim>\<open>_clone()\<close> throws, before any object that is reachable has changed.
\<close>

definition createClone :: "string list \<Rightarrow> nat \<Rightarrow> project \<Rightarrow> (js_error + project) option" where
  "createClone names this st =
     (if this < length (sprites st)
         \<and> effects (sprites st ! this) < length (effectMaps st)
         \<and> u_vars (sprites st ! this) < length (varMaps st) then
        (let me = sprites st ! this;
             clone_ref = length (sprites st);
             vars_ref = length (varMaps st);
             effects_ref = length (effectMaps st)
         in case effect_clone names (effectMaps st ! effects me) of
              Inl e \<Rightarrow> Some (Inl e)
            | Inr m \<Rightarrow>
               (case find_original (sprites st) this of
                  None \<Rightarrow> None
                | Some original \<Rightarrow>
                    (let chain = ChainClone (effectChain (sprites st ! original)) clone_ref;
                         clone = me\<lparr>triggers := map (\<lambda>tr. \<lparr>trigger = trigger tr, options = options tr,
                                                              u_script = u_script tr\<rparr>) (triggers me),
                                    costumes := costumes me,
                                    sounds := sounds me,
                                    u_vars := vars_ref,
                                    u_speechBubble := \<lparr>bubble_text = [], bubble_style = ''say'',
                                                        bubble_timeout = None\<rparr>,
                                    effects := effects_ref,
                                    effectChain := chain,
                                    audioEffects := AudioEffectMap chain,
                                    clones := [],
                                    parent := Some this\<rparr>;
                         started = filter (\<lambda>tr. matches tr CLONE_START []) (triggers clone)
                     in Some (Inr (startTriggers (map (\<lambda>tr. (tr, clone_ref)) started)
                          (st\<lparr>sprites := (sprites st)[this := me\<lparr>clones := clones me @ [clone_ref]\<rparr>] @ [clone],
                              varMaps := varMaps st @ [varMaps st ! u_vars me],
                              effectMaps := effectMaps st @ [m]\<rparr>))))))
      else None)"

text \<open>\<^verbatim>\<open>deleteThisClone()\<close>. \<open>None\<close>: a reference points outside the heap.\<close>

definition deleteThisClone :: "nat \<Rightarrow> project \<Rightarrow> project option" where
  "deleteThisClone this st =
     (if this < length (sprites st) then
        (case parent (sprites st ! this) of
           None \<Rightarrow> Some st
         | Some p \<Rightarrow>
             if p < length (sprites st) then
               Some (st\<lparr>sprites := (sprites st)
                          [p := (sprites st ! p)\<lparr>clones := filter (\<lambda>clone. clone \<noteq> this)
                                                            (clones (sprites st ! p))\<rparr>],
                        runningTriggers := filter (\<lambda>(tr, target). target \<noteq> this)
                                             (runningTriggers st)\<rparr>)
             else None)
      else None)"

text \<open>
  Reading and writing through the references of a sprite: \<^verbatim>\<open>sprite.effects[name]\<close>,
  \<^verbatim>\<open>sprite.effects[name] = val\<close>, \<^verbatim>\<open>sprite.effects._bitmask\<close>, \<^verbatim>\<open>sprite.vars[name]\<close> and
  \<^verbatim>\<open>sprite.vars[name] = val\<close>. The object of the variables is an ordinary object: a
  name that it does not have is looked up in \<^verbatim>\<open>Object.prototype\<close> (\<open>None\<close>: the model does
  not hold these members), and an assignment to \<^verbatim>\<open>__proto__\<close> replaces the prototype
  instead of storing an entry (\<open>None\<close>).
\<close>

definition sprite_effects :: "project \<Rightarrow> nat \<Rightarrow> effect_map" where
  "sprite_effects st r = effectMaps st ! effects (sprites st ! r)"

definition sprite_vars :: "project \<Rightarrow> nat \<Rightarrow> (string \<times> varval) list" where
  "sprite_vars st r = varMaps st ! u_vars (sprites st ! r)"






subsection \<open>Well-formed heaps, ancestors and later states\<close>

text \<open>
  A clone is created after its parent: in every heap that \<^verbatim>\<open>createClone\<close> builds, the
  reference of a parent is smaller than the reference of its clone.
\<close>

definition wf_parents :: "sprite list \<Rightarrow> bool" where
  "wf_parents sp \<longleftrightarrow> (\<forall>r < length sp. \<forall>p. parent (sp ! r) = Some p \<longrightarrow> p < r)"

text \<open>The references that \<^verbatim>\<open>createClone\<close> follows from the sprite \<open>r\<close> are in the heaps.\<close>

definition valid_sprite :: "project \<Rightarrow> nat \<Rightarrow> bool" where
  "valid_sprite st r \<longleftrightarrow>
     r < length (sprites st)
     \<and> effects (sprites st ! r) < length (effectMaps st)
     \<and> u_vars (sprites st ! r) < length (varMaps st)"

text \<open>
  \<open>ancestor sp r a\<close>: \<open>a\<close> is \<open>r\<close> itself, its parent, the parent of its parent, and so
  on. The top-most ancestor is the one without a parent.
\<close>

inductive ancestor :: "sprite list \<Rightarrow> nat \<Rightarrow> nat \<Rightarrow> bool" for sp :: "sprite list" where
  anc_self: "r < length sp \<Longrightarrow> ancestor sp r r"
| anc_parent: "r < length sp \<Longrightarrow> parent (sp ! r) = Some p \<Longrightarrow> ancestor sp p a \<Longrightarrow> ancestor sp r a"

text \<open>
  The states that a project reaches from \<open>st\<close> by calls of \<^verbatim>\<open>createClone\<close> and
  \<^verbatim>\<open>deleteThisClone\<close>, the two methods of this file that change the running triggers.
\<close>

inductive later :: "string list \<Rightarrow> project \<Rightarrow> project \<Rightarrow> bool"
  for names :: "string list" and st :: project where
  later_now: "later names st st"
| later_createClone:
    "later names st st1 \<Longrightarrow> createClone names r st1 = Some (Inr st2) \<Longrightarrow> later names st st2"
| later_deleteThisClone:
    "later names st st1 \<Longrightarrow> deleteThisClone r st1 = Some st2 \<Longrightarrow> later names st st2"

subsection \<open>A concrete project\<close>

text \<open>
  The definitions are evaluated on a project with two sprites: an original with one
  clone, which has an effect chain, effects, variables and a list of its own.
\<close>

definition example_names :: "string list" where
  "example_names = [''color'', ''fisheye'', ''whirl'', ''pixelate'', ''mosaic'', ''brightness'', ''ghost'']"

definition example_sprite :: sprite where
  "example_sprite =
     \<lparr>u_costumeNumber = 1, u_layerOrder = 0,
      triggers = [\<lparr>trigger = CLONE_START, options = [], u_script = 0\<rparr>,
                  \<lparr>trigger = BROADCAST, options = [(''name'', JStr ''go'')], u_script = 1\<rparr>],
      costumes = [''costume1'', ''costume2'', ''costume3''], sounds = [''pop''],
      effectChain = NewChain 0, effects = 0, audioEffects = AudioEffectMap (NewChain 0),
      u_vars = 0, u_x = 0, u_y = 0, u_direction = 90, rotationStyle = ALL_AROUND,
      spr_size = 100, visible = True, parent = None, clones = [1],
      u_penDown = False, penSize = 1, u_penColor = JColor (RGB 0 0 255),
      u_speechBubble = \<lparr>bubble_text = [], bubble_style = ''say'', bubble_timeout = None\<rparr>\<rparr>"

definition example_clone :: sprite where
  "example_clone =
     example_sprite\<lparr>effectChain := NewChain 1, audioEffects := AudioEffectMap (NewChain 1),
                    effects := 1, u_vars := 1, parent := Some 0, clones := []\<rparr>"

definition example_effects :: effect_map where
  "example_effects =
     \<lparr>u_bitmask = 64,
      u_effectValues = [(''color'', JNum 0), (''fisheye'', JNum 0), (''whirl'', JNum 0),
                        (''pixelate'', JNum 0), (''mosaic'', JNum 0), (''brightness'', JNum 0),
                        (''ghost'', JNum 50)],
      ownProps = []\<rparr>"

definition example_project :: project where
  "example_project =
     \<lparr>sprites = [example_sprite, example_clone],
      effectMaps = [example_effects, example_effects],
      varMaps = [[(''score'', Value (JNum 3)), (''items'', ListRef 0)],
                 [(''score'', Value (JNum 3)), (''items'', ListRef 1)]],
      arrays = [[JStr ''a'', JStr ''b''], [JStr ''a'', JStr ''b'']],
      runningTriggers = [(\<lparr>trigger = CLONE_START, options = [], u_script = 0\<rparr>, 1),
                         (\<lparr>trigger = BROADCAST, options = [(''name'', JStr ''go'')], u_script = 1\<rparr>, 0),
                         (\<lparr>trigger = BROADCAST, options = [(''name'', JStr ''go'')], u_script = 1\<rparr>, 1)]\<rparr>"

section \<open>Properties\<close>

subsection \<open>Numbers, direction and costume number\<close>

lemma representableI:
  assumes "x = of_int m * 2 powi e" "\<bar>m\<bar> < 2 ^ 53" "- 1074 \<le> e" "e \<le> 971"
  shows "representable x"
proof -
  have "x / 2 powi e = of_int m" using assms(1) by simp
  moreover have "\<bar>real_of_int m\<bar> < 2 ^ 53"
  proof -
    have "real_of_int \<bar>m\<bar> < real_of_int (2 ^ 53)" using assms(2) by (simp only: of_int_less_iff)
    then show ?thesis by simp
  qed
  ultimately have "real_of_int \<lfloor>x / 2 powi e\<rfloor> = x / 2 powi e \<and> \<bar>x / 2 powi e\<bar> < 2 ^ 53"
    by simp
  moreover have "e \<in> {- 1074 .. 971}" using assms(3,4) by simp
  ultimately show ?thesis unfolding representable_def by blast
qed

lemma representable_of_int: "\<bar>n\<bar> < 2 ^ 53 \<Longrightarrow> representable (of_int n)"
  by (rule representableI [where m = n and e = 0]) simp_all

lemma representable_dyadic:
  assumes "\<bar>n\<bar> < 2 ^ 53" "k \<le> 1074"
  shows "representable (of_int n / 2 ^ k)"
proof (rule representableI [where m = n and e = "- int k"])
  show "real_of_int n / 2 ^ k = real_of_int n * 2 powi (- int k)"
    by (simp add: power_int_minus field_simps)
qed (use assms in simp_all)


lemma fl_representable: "representable x \<Longrightarrow> fl x = Some x"
  by (simp add: fl_def)
















lemma wrapClamp_fraction: "wrapClamp (13 / 4) 1 3 = Some (13 / 4)"
proof -
  have r: "representable 2" "representable 3" "representable (9 / 4)" "representable (3 / 4)"
    "representable 0" "representable (13 / 4)"
    using representable_of_int [of 2] representable_of_int [of 3] representable_dyadic [of 9 2]
      representable_dyadic [of 3 2] representable_of_int [of 0] representable_dyadic [of 13 2]
    by simp_all
  show ?thesis
    by (simp add: wrapClamp_def js_add_def js_sub_def js_div_def js_mul_def Math_floor_def
        fl_representable r)
qed

text \<open>
  Claim C8 fails on the code. With three costumes, \<^verbatim>\<open>sprite.costumeNumber = 3.25\<close> stores
  3.25 (every step of \<^verbatim>\<open>wrapClamp(3.25, 1, 3)\<close> is exact: the range is 3, the quotient
  2.25 / 3 is 0.75, its floor is 0). The stored number is not in the interval from 1 to 3
  that \<^verbatim>\<open>wrapClamp\<close> is to keep it in.
\<close>

theorem costumeNumber_set_fraction:
  "length (costumes example_sprite) = 3
   \<and> costumeNumber_set (13 / 4) example_sprite = Some (example_sprite\<lparr>u_costumeNumber := 13 / 4\<rparr>)
   \<and> \<not> (u_costumeNumber (example_sprite\<lparr>u_costumeNumber := 13 / 4\<rparr>)
          \<le> real (length (costumes example_sprite)))"
proof -
  have c: "costumes example_sprite = [''costume1'', ''costume2'', ''costume3'']"
    by (simp add: example_sprite_def)
  show ?thesis
    by (simp add: costumeNumber_set_def c wrapClamp_fraction)
qed

subsection \<open>Moving\<close>

lemma scratchToRad_90: "scratchToRad 90 = Some 0"
proof -
  have r: "representable 0" using representable_of_int [of 0] by simp
  show ?thesis
    by (simp add: scratchToRad_def scratchToDeg_def degToRad_def js_add_def js_mul_def js_div_def
        fl_representable r)
qed

lemma move_10_direction_90:
  assumes "u_x s = 0" "u_y s = 0" "u_direction s = 90"
  shows "move 10 (s, r) = Some (goto 10 0 (s, r))"
proof -
  have rep: "representable 0" "representable 10"
    using representable_of_int [of 0] representable_of_int [of 10] by simp_all
  show ?thesis
    using assms
    by (simp add: move_def scratchToRad_90 Math_cos_def Math_sin_def js_mul_def js_add_def
        fl_representable rep)
qed

text \<open>
  Claim C9, as the code has it. From (0, 0), \<^verbatim>\<open>move(10)\<close> with direction 90 ends at
  (10, 0), with no rounding: \<^verbatim>\<open>scratchToRad(90)\<close> is 0, so direction 90 points along the
  x axis.
\<close>

theorem move_direction_90:
  "\<exists>s' r'. move 10 (s\<lparr>u_x := 0, u_y := 0, u_direction := 90\<rparr>, r) = Some (s', r')
      \<and> u_x s' = 10 \<and> u_y s' = 0"
proof -
  let ?s = "s\<lparr>u_x := 0, u_y := 0, u_direction := 90\<rparr>"
  have "move 10 (?s, r) = Some (goto 10 0 (?s, r))"
    by (rule move_10_direction_90) simp_all
  moreover obtain s' r' where g: "goto 10 0 (?s, r) = (s', r')" by (cases "goto 10 0 (?s, r)")
  moreover have "u_x s' = 10 \<and> u_y s' = 0"
    using g by (auto simp add: goto_def split: if_splits)
  ultimately show ?thesis by simp
qed

text \<open>
  Claim C9 as it is written expects a position near (0, 10) for direction 90. The sprite
  is at (10, 0).
\<close>

theorem move_direction_90_counterexample:
  "map_option (\<lambda>(s', r'). (u_x s', u_y s'))
     (move 10 (example_sprite\<lparr>u_x := 0, u_y := 0, u_direction := 90\<rparr>, [])) = Some (10, 0)"
proof -
  let ?s = "example_sprite\<lparr>u_x := 0, u_y := 0, u_direction := 90\<rparr>"
  have "move 10 (?s, []) = Some (goto 10 0 (?s, []))"
    by (rule move_10_direction_90) simp_all
  then show ?thesis by (simp add: goto_def)
qed

text \<open>
  What the setter of \<^verbatim>\<open>penColor\<close> does with each kind of value: it stores an instance of
  \<^verbatim>\<open>Color\<close>; for another value that has a string it calls \<^verbatim>\<open>console.error\<close> and leaves the
  sprite as it is; for a Symbol it throws.
\<close>

lemma penColor_set_cases:
  "(\<not> instanceof_Color v \<and> \<not> template_throws v \<longrightarrow>
      penColor_set v (s, console) = Inr (s, console @ [v]))
   \<and> (template_throws v \<longrightarrow> penColor_set v (s, console) = Inl TypeError)
   \<and> (instanceof_Color v \<longrightarrow> penColor_set v (s, console) = Inr (s\<lparr>u_penColor := v\<rparr>, console))"
  by (cases v) (simp_all add: penColor_set_def)

text \<open>
  Claim C10 fails on the code. \<^verbatim>\<open>sprite.penColor = Symbol("red")\<close>: the value is not an
  instance of \<^verbatim>\<open>Color\<close>, and the template literal that builds the message for
  \<^verbatim>\<open>console.error\<close> throws a TypeError, so the failure is raised and not logged. A string
  in its place is logged.
\<close>

theorem penColor_set_symbol_throws:
  "\<not> instanceof_Color (JSymbol ''red'')
   \<and> penColor_set (JSymbol ''red'') (example_sprite, []) = Inl TypeError
   \<and> penColor_set (JStr ''red'') (example_sprite, []) = Inr (example_sprite, [JStr ''red''])"
  by (simp add: penColor_set_def)

subsection \<open>Gliding\<close>

text \<open>
  Each round of the loop puts the sprite at the interpolation for
  \<open>t = (now - startTime) / (seconds * 1000)\<close>, whatever \<open>t\<close> is: nothing bounds \<open>t\<close>
  by 1.
\<close>

lemma glide_body_position:
  assumes "glide_body now f sr = Some (f', s', r')"
  shows "g_t f' = real_of_int (now - startTime f) / (g_seconds f * 1000)
         \<and> u_x s' = interpolate (startX f) (g_x f) (g_t f')
         \<and> u_y s' = interpolate (startY f) (g_y f) (g_t f')"
  using assms
  by (cases sr) (auto simp add: glide_body_def goto_def Let_def split: if_splits)

text \<open>
  Claim C1 fails on the code. \<^verbatim>\<open>glide(1, 10, 0)\<close> from (0, 0), started at time 0 and
  resumed at 400 ms and at 1500 ms: the resumption at 1500 ms is the first with at least
  one second elapsed; it leaves the sprite at (15, 0), not at (10, 0), and the generator
  suspended. The generator ends at the resumption after that one, with the sprite still
  at (15, 0).
\<close>

theorem glide_overshoots:
  "map_option (\<lambda>(g, s, r). (g, u_x s, u_y s))
     (glide 1 10 0 0 [400, 1500] (example_sprite\<lparr>u_x := 0, u_y := 0\<rparr>, []))
   = Some (Yielded \<lparr>g_seconds = 1, g_x = 10, g_y = 0, startTime = 0, startX = 0, startY = 0, g_t = 3 / 2\<rparr>, 15, 0)
   \<and> map_option (\<lambda>(g, s, r). (g, u_x s, u_y s))
     (glide 1 10 0 0 [400, 1500, 1516] (example_sprite\<lparr>u_x := 0, u_y := 0\<rparr>, []))
   = Some (Returned, 15, 0)"
  by (simp add: glide_def glide_start_def glide_resume_def glide_body_def goto_def interpolate_def Let_def)

subsection \<open>Effect maps\<close>

lemma index_of_Some: "index_of names n = Some i \<Longrightarrow> i < length names \<and> names ! i = n"
  by (induction names arbitrary: i) (auto split: if_splits)

lemma index_of_None: "index_of names n = None \<longleftrightarrow> n \<notin> set names"
  by (induction names) auto

lemma lookup_assign: "lookup (assign k v kvs) k' = (if k' = k then v else lookup kvs k')"
  by (simp add: lookup_def assign_def update_conv')

lemma keys_assign:
  "map fst (assign k v kvs) = (if k \<in> set (map fst kvs) then map fst kvs else map fst kvs @ [k])"
  by (simp add: assign_def update_keys)

lemma assign_new: "k \<notin> set (map fst kvs) \<Longrightarrow> assign k v kvs = kvs @ [(k, v)]"
  unfolding assign_def by (induction kvs) auto

lemma bit_union_bits: "bit (union_bits js) j \<longleftrightarrow> j < 32 \<and> j \<in> set js"
proof (induction js)
  case Nil
  then show ?case by (simp add: union_bits_def)
next
  case (Cons a js)
  have "union_bits (a # js) = push_bit a 1 OR union_bits js"
    by (simp add: union_bits_def)
  moreover have "bit (push_bit a (1 :: 32 word)) j \<longleftrightarrow> j < 32 \<and> j = a"
    by (auto simp add: bit_exp_iff)
  ultimately show ?case using Cons by (auto simp add: bit_or_iff)
qed

lemma set_enabled_bits:
  "j \<in> set (enabled_bits names vals) \<longleftrightarrow> j < length names \<and> lookup vals (names ! j) \<noteq> JNum 0"
  by (auto simp add: enabled_bits_def)

lemma index_of_nth: "distinct names \<Longrightarrow> i < length names \<Longrightarrow> index_of names (names ! i) = Some i"
proof (induction names arbitrary: i)
  case Nil
  then show ?case by simp
next
  case (Cons x xs)
  show ?case
  proof (cases i)
    case 0
    then show ?thesis by simp
  next
    case (Suc j)
    with Cons.prems have "xs ! j \<noteq> x" "j < length xs" "distinct xs" by auto
    with Cons.IH [of j] Suc show ?thesis by simp
  qed
qed

lemma bit_enabled:
  assumes "length names \<le> 32"
  shows "bit (union_bits (enabled_bits names vals)) j \<longleftrightarrow>
           j < length names \<and> lookup vals (names ! j) \<noteq> JNum 0"
proof -
  have "bit (union_bits (enabled_bits names vals)) j \<longleftrightarrow>
          j < 32 \<and> (j < length names \<and> lookup vals (names ! j) \<noteq> JNum 0)"
    by (simp only: bit_union_bits set_enabled_bits)
  moreover have "j < length names \<Longrightarrow> j < 32" using assms by simp
  ultimately show ?thesis by blast
qed

lemma consistent_bits:
  assumes "length names \<le> 32"
  shows "effect_consistent names m \<longleftrightarrow>
           map fst (u_effectValues m) = names \<and>
           (\<forall>j. bit (u_bitmask m) j \<longleftrightarrow> j < length names \<and> lookup (u_effectValues m) (names ! j) \<noteq> JNum 0)"
proof -
  have "u_bitmask m = union_bits (enabled_bits names (u_effectValues m)) \<longleftrightarrow>
        (\<forall>j. bit (u_bitmask m) j \<longleftrightarrow> bit (union_bits (enabled_bits names (u_effectValues m))) j)"
    (is "?L \<longleftrightarrow> ?R")
  proof
    assume ?L
    then show ?R by simp
  next
    assume r: ?R
    show ?L by (rule bit_eqI) (simp only: r)
  qed
  then show ?thesis
    by (simp only: effect_consistent_def bit_enabled [OF assms])
qed

lemma define_effects_distinct:
  "distinct names \<Longrightarrow> set names \<inter> set (map fst (u_effectValues m)) = {} \<Longrightarrow>
   define_effects names m = Inr (m\<lparr>u_effectValues := u_effectValues m @ map (\<lambda>n. (n, JNum 0)) names\<rparr>)"
proof (induction names arbitrary: m)
  case Nil
  then show ?case by simp
next
  case (Cons n ns)
  from Cons.prems have fresh: "n \<notin> set (map fst (u_effectValues m))" by auto
  let ?m = "m\<lparr>u_effectValues := assign n (JNum 0) (u_effectValues m)\<rparr>"
  have vals: "u_effectValues ?m = u_effectValues m @ [(n, JNum 0)]"
    using fresh by (simp add: assign_new)
  have "define_effects ns ?m = Inr (?m\<lparr>u_effectValues := u_effectValues ?m @ map (\<lambda>n. (n, JNum 0)) ns\<rparr>)"
    using Cons.prems by (intro Cons.IH) (auto simp add: vals)
  then show ?case using fresh by (simp add: vals)
qed

lemma define_effects_TypeError:
  "\<not> distinct names \<or> set names \<inter> set (map fst (u_effectValues m)) \<noteq> {} \<Longrightarrow>
   define_effects names m = Inl TypeError"
proof (induction names arbitrary: m)
  case Nil
  then show ?case by simp
next
  case (Cons n ns)
  show ?case
  proof (cases "n \<in> set (map fst (u_effectValues m))")
    case True
    then show ?thesis by simp
  next
    case False
    let ?m = "m\<lparr>u_effectValues := assign n (JNum 0) (u_effectValues m)\<rparr>"
    have "\<not> distinct ns \<or> set ns \<inter> set (map fst (u_effectValues ?m)) \<noteq> {}"
      using Cons.prems False by (auto simp add: keys_assign)
    then have "define_effects ns ?m = Inl TypeError" by (rule Cons.IH)
    then show ?thesis using False by simp
  qed
qed

lemma new_EffectMap_distinct:
  "distinct names \<Longrightarrow>
   new_EffectMap names = Inr \<lparr>u_bitmask = 0, u_effectValues = map (\<lambda>n. (n, JNum 0)) names, ownProps = []\<rparr>"
  by (simp add: new_EffectMap_def define_effects_distinct)

lemma new_EffectMap_Inr_distinct: "new_EffectMap names = Inr m \<Longrightarrow> distinct names"
  using define_effects_TypeError [of names "\<lparr>u_bitmask = 0, u_effectValues = [], ownProps = []\<rparr>"]
  by (auto simp add: new_EffectMap_def)

lemma lookup_zeros: "n \<in> set names \<Longrightarrow> lookup (map (\<lambda>n. (n, JNum 0)) names) n = JNum 0"
  by (induction names) (auto simp add: lookup_def)

lemma new_EffectMap_consistent:
  assumes "distinct names"
  shows "\<exists>m. new_EffectMap names = Inr m \<and> effect_consistent names m \<and> u_bitmask m = 0
             \<and> (\<forall>n \<in> set names. lookup (u_effectValues m) n = JNum 0)"
proof -
  have "enabled_bits names (map (\<lambda>n. (n, JNum 0)) names) = []"
    by (auto simp add: enabled_bits_def filter_empty_conv lookup_zeros)
  then show ?thesis
    using assms
    by (simp add: new_EffectMap_distinct effect_consistent_def comp_def union_bits_def lookup_zeros)
qed

lemma accessor_set_bits:
  assumes "i < 32"
  shows "bit (u_bitmask (accessor_set i n v m)) j \<longleftrightarrow> (if j = i then v \<noteq> JNum 0 else bit (u_bitmask m) j)"
  using assms by (auto simp add: accessor_set_def bit_and_iff bit_or_iff bit_not_iff bit_exp_iff dest: bit_imp_le_length)

lemma accessor_set_consistent:
  assumes d: "distinct names" and len: "length names \<le> 32" and i: "i < length names"
    and c: "effect_consistent names m"
  shows "effect_consistent names (accessor_set i (names ! i) v m)"
proof -
  have keys: "map fst (u_effectValues m) = names"
    using c by (simp add: effect_consistent_def)
  have i32: "i < 32" using i len by simp
  have bits: "bit (u_bitmask m) j \<longleftrightarrow> j < length names \<and> lookup (u_effectValues m) (names ! j) \<noteq> JNum 0" for j
    using c len by (simp add: consistent_bits)
  have vals: "u_effectValues (accessor_set i (names ! i) v m) = assign (names ! i) v (u_effectValues m)"
    by (simp add: accessor_set_def)
  have keys': "map fst (u_effectValues (accessor_set i (names ! i) v m)) = names"
    using keys i by (simp add: vals keys_assign)
  have "bit (u_bitmask (accessor_set i (names ! i) v m)) j \<longleftrightarrow>
          j < length names \<and> lookup (u_effectValues (accessor_set i (names ! i) v m)) (names ! j) \<noteq> JNum 0" for j
  proof (cases "j = i")
    case True
    then show ?thesis using i i32 by (simp add: accessor_set_bits vals lookup_assign)
  next
    case False
    show ?thesis
    proof (cases "j < length names")
      case True
      with False d i have "names ! j \<noteq> names ! i" by (simp add: nth_eq_iff_index_eq)
      then show ?thesis using False i32 bits [of j] by (simp add: accessor_set_bits vals lookup_assign)
    next
      case False
      then show ?thesis using \<open>j \<noteq> i\<close> i32 bits [of j] by (simp add: accessor_set_bits)
    qed
  qed
  then show ?thesis using keys' len by (simp add: consistent_bits)
qed

lemma effect_set_registered:
  "distinct names \<Longrightarrow> i < length names \<Longrightarrow>
   effect_set names m (names ! i) v = Inr (accessor_set i (names ! i) v m)"
  by (simp add: effect_set_def index_of_nth)

lemma effect_set_unregistered:
  "name \<notin> set names \<Longrightarrow> effect_set names m name v = Inr (m\<lparr>ownProps := assign name v (ownProps m)\<rparr>)"
  using index_of_None [of names name] by (simp add: effect_set_def)

lemma effect_get_registered:
  "name \<in> set names \<Longrightarrow> effect_get names m name = Inr (lookup (u_effectValues m) name)"
  using index_of_None [of names name]
  by (cases "index_of names name") (simp_all add: effect_get_def accessor_get_def)

lemma effect_get_unregistered:
  "name \<notin> set names \<Longrightarrow> effect_get names m name = Inr (lookup (ownProps m) name)"
  using index_of_None [of names name] by (simp add: effect_get_def)

lemma effect_set_consistent:
  assumes d: "distinct names" and len: "length names \<le> 32" and c: "effect_consistent names m"
    and s: "effect_set names m name v = Inr m'"
  shows "effect_consistent names m'"
proof (cases "index_of names name")
  case None
  with s have "m' = m\<lparr>ownProps := assign name v (ownProps m)\<rparr>" by (simp add: effect_set_def)
  then show ?thesis using c by (simp add: effect_consistent_def)
next
  case (Some i)
  then have i: "i < length names" "names ! i = name" using index_of_Some by auto
  from Some s have "m' = accessor_set i (names ! i) v m" by (simp add: effect_set_def i)
  then show ?thesis using accessor_set_consistent [OF d len i(1) c] by simp
qed

lemma lookup_cleared: "lookup (map (\<lambda>(k, v). (k, JNum 0)) kvs) n = (if n \<in> set (map fst kvs) then JNum 0 else JUndefined)"
  by (induction kvs) (auto simp add: lookup_def)

lemma effect_clear_consistent:
  assumes c: "effect_consistent names m" and s: "effect_clear m = Inr m'"
  shows "effect_consistent names m' \<and> u_bitmask m' = 0
         \<and> (\<forall>n \<in> set names. lookup (u_effectValues m') n = JNum 0)"
proof -
  have keys: "map fst (u_effectValues m) = names"
    using c by (simp add: effect_consistent_def)
  have m': "m' = m\<lparr>u_effectValues := map (\<lambda>(k, v). (k, JNum 0)) (u_effectValues m), u_bitmask := 0\<rparr>"
    using s by (simp add: effect_clear_def)
  have k': "map fst (u_effectValues m') = names"
    using keys by (simp add: m' comp_def case_prod_unfold)
  have z: "lookup (u_effectValues m') n = JNum 0" if "n \<in> set names" for n
    using that keys by (simp add: m' lookup_cleared)
  have "enabled_bits names (u_effectValues m') = []"
    by (auto simp add: enabled_bits_def filter_empty_conv z)
  then show ?thesis using k' z by (simp add: effect_consistent_def union_bits_def m')
qed

lemma copy_effects_Inr: "\<exists>m'. copy_effects names src ks m = Inr m'"
proof (induction ks arbitrary: m)
  case Nil
  then show ?case by simp
next
  case (Cons k ks)
  obtain v where g: "effect_get names src k = Inr v"
    by (cases "index_of names k") (simp_all add: effect_get_def)
  obtain m1 where s: "effect_set names m k v = Inr m1"
    by (cases "index_of names k") (simp_all add: effect_set_def)
  from Cons.IH [of m1] g s show ?case by simp
qed

lemma copy_effects_registered:
  assumes d: "distinct names" and len: "length names \<le> 32"
  shows "set ks \<subseteq> set names \<Longrightarrow> effect_consistent names m \<Longrightarrow>
         \<exists>m'. copy_effects names src ks m = Inr m' \<and> effect_consistent names m'
              \<and> ownProps m' = ownProps m
              \<and> (\<forall>k. lookup (u_effectValues m') k =
                        (if k \<in> set ks then lookup (u_effectValues src) k else lookup (u_effectValues m) k))"
proof (induction ks arbitrary: m)
  case Nil
  then show ?case by simp
next
  case (Cons k ks)
  from Cons.prems have "k \<in> set names" by simp
  then obtain i where i: "i < length names" "names ! i = k"
    by (auto simp add: in_set_conv_nth)
  let ?v = "lookup (u_effectValues src) k"
  let ?m1 = "accessor_set i k ?v m"
  have g: "effect_get names src k = Inr ?v"
    using \<open>k \<in> set names\<close> by (rule effect_get_registered)
  have s: "effect_set names m k ?v = Inr ?m1"
    using effect_set_registered [OF d i(1), of m ?v] i(2) by simp
  have c1: "effect_consistent names ?m1"
    using accessor_set_consistent [OF d len i(1) Cons.prems(2), of ?v] i(2) by simp
  have l1: "lookup (u_effectValues ?m1) k' = (if k' = k then ?v else lookup (u_effectValues m) k')" for k'
    by (simp add: accessor_set_def lookup_assign)
  have o1: "ownProps ?m1 = ownProps m" by (simp add: accessor_set_def)
  from Cons.prems have "set ks \<subseteq> set names" by simp
  from Cons.IH [OF this c1] obtain m' where
    m': "copy_effects names src ks ?m1 = Inr m'" "effect_consistent names m'" "ownProps m' = ownProps ?m1"
      "\<And>k'. lookup (u_effectValues m') k' =
         (if k' \<in> set ks then lookup (u_effectValues src) k' else lookup (u_effectValues ?m1) k')"
    by blast
  have "copy_effects names src (k # ks) m = Inr m'"
    using g s m'(1) by simp
  moreover have "lookup (u_effectValues m') k' =
         (if k' \<in> set (k # ks) then lookup (u_effectValues src) k' else lookup (u_effectValues m) k')" for k'
    using m'(4) [of k'] by (simp add: l1)
  ultimately show ?case using m'(2,3) o1 by simp
qed

lemma alist_eqI:
  "map fst xs = map fst ys \<Longrightarrow> distinct (map fst xs) \<Longrightarrow>
   (\<And>k. k \<in> set (map fst xs) \<Longrightarrow> lookup xs k = lookup ys k) \<Longrightarrow> xs = ys"
proof (induction xs arbitrary: ys)
  case Nil
  then show ?case by simp
next
  case (Cons x xs)
  then obtain y ys' where ys: "ys = y # ys'" by (cases ys) auto
  with Cons.prems have k: "fst y = fst x" "map fst xs = map fst ys'" "fst x \<notin> set (map fst xs)"
    "distinct (map fst xs)" by auto
  have "lookup (x # xs) (fst x) = lookup ys (fst x)" using Cons.prems(3) by simp
  then have v: "snd x = snd y" using k(1) by (simp add: lookup_def ys)
  have "lookup xs k' = lookup ys' k'" if "k' \<in> set (map fst xs)" for k'
  proof -
    have "k' \<noteq> fst x" using that k(3) by blast
    moreover have "lookup (x # xs) k' = lookup ys k'" using that Cons.prems(3) by simp
    ultimately show ?thesis using k(1) by (simp add: lookup_def ys)
  qed
  with Cons.IH [OF k(2) k(4)] have "xs = ys'" by blast
  then show ?case using v k(1) by (simp add: ys prod_eq_iff)
qed

lemma enabled_bits_cong:
  "(\<And>k. k \<in> set names \<Longrightarrow> lookup vals k = lookup vals' k) \<Longrightarrow>
   enabled_bits names vals = enabled_bits names vals'"
  unfolding enabled_bits_def by (rule filter_cong) auto

lemma effect_clone_consistent:
  assumes d: "distinct names" and len: "length names \<le> 32" and c: "effect_consistent names m"
  shows "effect_clone names m = Inr (m\<lparr>ownProps := []\<rparr>)"
proof -
  have keys: "map fst (u_effectValues m) = names"
    using c by (simp add: effect_consistent_def)
  from new_EffectMap_consistent [OF d] obtain m0 where
    m0: "new_EffectMap names = Inr m0" "effect_consistent names m0"
    by blast
  have own0: "ownProps m0 = []"
    using m0(1) d by (auto simp add: new_EffectMap_distinct)
  from copy_effects_registered [OF d len _ m0(2), of names m] obtain m' where
    m': "copy_effects names m names m0 = Inr m'" "effect_consistent names m'" "ownProps m' = ownProps m0"
      "\<And>k. lookup (u_effectValues m') k =
         (if k \<in> set names then lookup (u_effectValues m) k else lookup (u_effectValues m0) k)"
    by blast
  have keys': "map fst (u_effectValues m') = names"
    using m'(2) by (simp add: effect_consistent_def)
  have vals: "u_effectValues m' = u_effectValues m"
  proof (rule alist_eqI)
    show "map fst (u_effectValues m') = map fst (u_effectValues m)" by (simp add: keys keys')
    show "distinct (map fst (u_effectValues m'))" using d by (simp add: keys')
    show "lookup (u_effectValues m') k = lookup (u_effectValues m) k"
      if "k \<in> set (map fst (u_effectValues m'))" for k
      using that m'(4) [of k] by (simp add: keys')
  qed
  have "u_bitmask m' = u_bitmask m"
    using m'(2) c by (simp add: effect_consistent_def vals)
  then have "m' = m\<lparr>ownProps := []\<rparr>"
    using vals m'(3) own0 by simp
  then show ?thesis
    using m0(1) m'(1) by (simp add: effect_clone_def keys)
qed

lemma reachable_distinct: "effect_reachable names m \<Longrightarrow> distinct names"
  by (induction rule: effect_reachable.induct) (auto dest: new_EffectMap_Inr_distinct)

lemma reachable_consistent:
  assumes len: "length names \<le> 32" and r: "effect_reachable names m"
  shows "effect_consistent names m"
  using r
proof (induction rule: effect_reachable.induct)
  case (reach_new m)
  then have "distinct names" by (rule new_EffectMap_Inr_distinct)
  from new_EffectMap_consistent [OF this] reach_new show ?case by auto
next
  case (reach_set m name val m')
  have "distinct names" using reach_set.hyps(1) by (rule reachable_distinct)
  then show ?case using len reach_set.IH reach_set.hyps(2) by (rule effect_set_consistent)
next
  case (reach_clear m m')
  then show ?case using effect_clear_consistent by blast
next
  case (reach_clone m m')
  have "distinct names" using reach_clone.hyps(1) by (rule reachable_distinct)
  from effect_clone_consistent [OF this len reach_clone.IH] reach_clone.hyps(2)
  have "m' = m\<lparr>ownProps := []\<rparr>" by simp
  then show ?case using reach_clone.IH by (simp add: effect_consistent_def)
qed

lemma example_effects_reachable: "effect_reachable example_names example_effects"
proof -
  have d: "distinct example_names" by (simp add: example_names_def)
  have n: "new_EffectMap example_names =
             Inr \<lparr>u_bitmask = 0, u_effectValues = map (\<lambda>n. (n, JNum 0)) example_names, ownProps = []\<rparr>"
    using d by (rule new_EffectMap_distinct)
  have i: "6 < length example_names" "example_names ! 6 = ''ghost''"
    by (simp_all add: example_names_def)
  have "effect_set example_names
          \<lparr>u_bitmask = 0, u_effectValues = map (\<lambda>n. (n, JNum 0)) example_names, ownProps = []\<rparr>
          ''ghost'' (JNum 50) = Inr example_effects"
    using effect_set_registered [OF d i(1)] unfolding i(2)
    by (simp add: accessor_set_def assign_def example_effects_def example_names_def)
  with reach_new [OF n] show ?thesis by (rule reach_set)
qed

lemma accessor_set_mask:
  "u_bitmask (accessor_set i n v m) =
     (if v = JNum 0 then u_bitmask m AND NOT (push_bit (i mod 32) 1) else u_bitmask m OR push_bit (i mod 32) 1)"
  by (simp add: accessor_set_def)

text \<open>
  Claim C2. \<open>names\<close> is the table \<^verbatim>\<open>effectNames\<close>, of at most 32 names (one bit each).
  For every effect map \<open>m\<close> that the operations of the class produce (the constructor,
  then any sequence of assignments, \<^verbatim>\<open>clear()\<close> and \<^verbatim>\<open>_clone()\<close>):
  the bitmask is the union of the bits \<open>i\<close> whose name has a value other than 0;
  assigning \<open>v\<close> to the \<open>i\<close>-th name returns a map with the value stored and the bitmask
  updated together (bit \<open>i\<close> cleared when \<open>v\<close> is 0, set otherwise, every other bit as it
  was), for which the same equation holds; \<^verbatim>\<open>clear()\<close> leaves every value 0 and the
  bitmask 0.
\<close>

theorem effect_bitmask_tracks_values:
  assumes len: "length names \<le> 32" and r: "effect_reachable names m" and i: "i < length names"
  shows "u_bitmask m = union_bits (enabled_bits names (u_effectValues m))
       \<and> (\<forall>j. bit (u_bitmask m) j \<longleftrightarrow> j < length names \<and> lookup (u_effectValues m) (names ! j) \<noteq> JNum 0)
       \<and> (\<exists>m'. effect_set names m (names ! i) v = Inr m'
              \<and> effect_reachable names m'
              \<and> lookup (u_effectValues m') (names ! i) = v
              \<and> u_bitmask m' = (if v = JNum 0 then u_bitmask m AND NOT (push_bit i 1)
                                else u_bitmask m OR push_bit i 1)
              \<and> (\<forall>j. bit (u_bitmask m') j \<longleftrightarrow> (if j = i then v \<noteq> JNum 0 else bit (u_bitmask m) j))
              \<and> u_bitmask m' = union_bits (enabled_bits names (u_effectValues m')))
       \<and> (\<exists>m'. effect_clear m = Inr m' \<and> u_bitmask m' = 0
              \<and> (\<forall>n \<in> set names. lookup (u_effectValues m') n = JNum 0))"
proof -
  have d: "distinct names" using r by (rule reachable_distinct)
  have c: "effect_consistent names m" using len r by (rule reachable_consistent)
  have i32: "i < 32" "i mod 32 = i" using i len by simp_all
  let ?m' = "accessor_set i (names ! i) v m"
  have s: "effect_set names m (names ! i) v = Inr ?m'"
    using d i by (rule effect_set_registered)
  have r': "effect_reachable names ?m'" using r s by (rule reach_set)
  have c': "effect_consistent names ?m'" using len r' by (rule reachable_consistent)
  have 1: "u_bitmask m = union_bits (enabled_bits names (u_effectValues m))"
    using c by (simp add: effect_consistent_def)
  have 2: "\<forall>j. bit (u_bitmask m) j \<longleftrightarrow> j < length names \<and> lookup (u_effectValues m) (names ! j) \<noteq> JNum 0"
    using c len by (simp add: consistent_bits)
  have 3: "lookup (u_effectValues ?m') (names ! i) = v"
    by (simp add: accessor_set_def lookup_assign)
  have 4: "u_bitmask ?m' = (if v = JNum 0 then u_bitmask m AND NOT (push_bit i 1)
                                else u_bitmask m OR push_bit i 1)"
    by (simp only: accessor_set_mask i32)
  have 5: "\<forall>j. bit (u_bitmask ?m') j \<longleftrightarrow> (if j = i then v \<noteq> JNum 0 else bit (u_bitmask m) j)"
    using accessor_set_bits [OF i32(1)] by blast
  have 6: "u_bitmask ?m' = union_bits (enabled_bits names (u_effectValues ?m'))"
    using c' by (simp add: effect_consistent_def)
  obtain mc where mc: "effect_clear m = Inr mc" by (simp add: effect_clear_def)
  from effect_clear_consistent [OF c mc]
  have 7: "u_bitmask mc = 0 \<and> (\<forall>n \<in> set names. lookup (u_effectValues mc) n = JNum 0)" by blast
  from s r' 3 4 5 6 have set_part: "\<exists>m'. effect_set names m (names ! i) v = Inr m'
              \<and> effect_reachable names m'
              \<and> lookup (u_effectValues m') (names ! i) = v
              \<and> u_bitmask m' = (if v = JNum 0 then u_bitmask m AND NOT (push_bit i 1)
                                else u_bitmask m OR push_bit i 1)
              \<and> (\<forall>j. bit (u_bitmask m') j \<longleftrightarrow> (if j = i then v \<noteq> JNum 0 else bit (u_bitmask m) j))
              \<and> u_bitmask m' = union_bits (enabled_bits names (u_effectValues m'))"
    by blast
  from mc 7 have clear_part: "\<exists>m'. effect_clear m = Inr m' \<and> u_bitmask m' = 0
              \<and> (\<forall>n \<in> set names. lookup (u_effectValues m') n = JNum 0)"
    by blast
  from 1 2 set_part clear_part show ?thesis by blast
qed

theorem effect_bitmask_tracks_values_witness:
  "length example_names \<le> 32 \<and> effect_reachable example_names example_effects
   \<and> 6 < length example_names \<and> example_names ! 6 = ''ghost''
   \<and> u_bitmask example_effects = 64
   \<and> u_bitmask example_effects = union_bits (enabled_bits example_names (u_effectValues example_effects))
   \<and> (\<exists>m'. effect_set example_names example_effects ''ghost'' (JNum 0) = Inr m'
          \<and> lookup (u_effectValues m') ''ghost'' = JNum 0
          \<and> u_bitmask m' = 0)
   \<and> (\<exists>m'. effect_clear example_effects = Inr m' \<and> u_bitmask m' = 0)"
proof -
  have len: "length example_names \<le> 32" by (simp add: example_names_def)
  have i: "6 < length example_names" by (simp add: example_names_def)
  have g: "example_names ! 6 = ''ghost''" by (simp add: example_names_def)
  have b: "u_bitmask example_effects = 64" by (simp add: example_effects_def)
  have z: "(64 :: 32 word) AND NOT (push_bit 6 1) = 0" by simp
  show ?thesis
    using effect_bitmask_tracks_values [OF len example_effects_reachable i, of "JNum 0"]
      len example_effects_reachable i
    unfolding g b by (auto simp add: z)
qed

lemma intact_names: "property_reachable names m \<Longrightarrow> set names \<inter> set member_names = {}"
  by (induction rule: property_reachable.induct) auto

lemma intact_reachable: "property_reachable names m \<Longrightarrow> effect_reachable names m"
proof (induction rule: property_reachable.induct)
  case (intact_new m)
  then show ?case by (simp add: reach_new)
next
  case (intact_set m name val m')
  from intact_set.hyps(2) have "effect_set names m name val = Inr m'"
    by (simp add: property_set_def split: if_splits)
  with intact_set.IH show ?case by (rule reach_set)
next
  case (intact_clear m m')
  then show ?case by (blast intro: reach_clear)
next
  case (intact_clone m m')
  then show ?case by (blast intro: reach_clone)
qed

lemma example_names_members: "set example_names \<inter> set member_names = {}"
  by (simp add: example_names_def member_names_def object_member_names_def)

lemma example_effects_intact: "property_reachable example_names example_effects"
proof -
  have d: "distinct example_names" by (simp add: example_names_def)
  have n: "new_EffectMap example_names =
             Inr \<lparr>u_bitmask = 0, u_effectValues = map (\<lambda>n. (n, JNum 0)) example_names, ownProps = []\<rparr>"
    using d by (rule new_EffectMap_distinct)
  have i: "6 < length example_names" "example_names ! 6 = ''ghost''"
    by (simp_all add: example_names_def)
  have g: "''ghost'' \<notin> set member_names"
    by (simp add: member_names_def object_member_names_def)
  have "effect_set example_names
          \<lparr>u_bitmask = 0, u_effectValues = map (\<lambda>n. (n, JNum 0)) example_names, ownProps = []\<rparr>
          ''ghost'' (JNum 50) = Inr example_effects"
    using effect_set_registered [OF d i(1)] unfolding i(2)
    by (simp add: accessor_set_def assign_def example_effects_def example_names_def)
  then have "property_set example_names
          \<lparr>u_bitmask = 0, u_effectValues = map (\<lambda>n. (n, JNum 0)) example_names, ownProps = []\<rparr>
          ''ghost'' (JNum 50) = Some (Inr example_effects)"
    using g by (simp add: property_set_def)
  with intact_new [OF example_names_members n] show ?thesis by (rule intact_set)
qed

text \<open>
  Claim C4, as the code has it. \<open>m\<close> is an effect map whose members are as the class made
  them. There is no \<^verbatim>\<open>ConfigurationError\<close>: reading a name that is neither registered nor
  the name of a member gives the ordinary property of that name (\<^verbatim>\<open>undefined\<close> when there
  is none) and writing it stores an ordinary property; neither raises an error. Reading
  and writing a registered name, \<^verbatim>\<open>_clone()\<close> and \<^verbatim>\<open>clear()\<close> return normally.
\<close>

theorem effect_access_does_not_raise:
  assumes r: "property_reachable names m"
  shows "(name \<notin> set names \<and> name \<notin> set member_names \<longrightarrow>
            property_get names m name = Some (Inr (lookup (ownProps m) name))
          \<and> property_set names m name v = Some (Inr (m\<lparr>ownProps := assign name v (ownProps m)\<rparr>)))
       \<and> (name \<in> set names \<longrightarrow>
            property_get names m name = Some (Inr (lookup (u_effectValues m) name))
          \<and> (\<exists>m'. property_set names m name v = Some (Inr m')))
       \<and> (\<exists>m'. effect_clone names m = Inr m')
       \<and> (\<exists>m'. effect_clear m = Inr m')"
proof -
  have d: "distinct names" using r by (intro reachable_distinct intact_reachable)
  have 1: "property_get names m name = Some (Inr (lookup (ownProps m) name))
          \<and> property_set names m name v = Some (Inr (m\<lparr>ownProps := assign name v (ownProps m)\<rparr>))"
    if "name \<notin> set names \<and> name \<notin> set member_names"
    using that
    by (simp add: property_get_def property_set_def effect_get_unregistered effect_set_unregistered)
  have 2: "property_get names m name = Some (Inr (lookup (u_effectValues m) name))
          \<and> (\<exists>m'. property_set names m name v = Some (Inr m'))"
    if n: "name \<in> set names"
  proof -
    have nm: "name \<notin> set member_names" using intact_names [OF r] n by blast
    obtain i where i: "index_of names name = Some i"
      using n index_of_None [of names name] by (cases "index_of names name") simp_all
    show ?thesis
      using nm i
      by (simp add: property_get_def property_set_def effect_get_def effect_set_def accessor_get_def)
  qed
  have 3: "\<exists>m'. effect_clone names m = Inr m'"
    using copy_effects_Inr d by (simp add: effect_clone_def new_EffectMap_distinct)
  have 4: "\<exists>m'. effect_clear m = Inr m'" by (simp add: effect_clear_def)
  from 1 2 3 4 show ?thesis by blast
qed

theorem effect_access_does_not_raise_witness:
  "property_reachable example_names example_effects
   \<and> ''sparkle'' \<notin> set example_names \<and> ''sparkle'' \<notin> set member_names
   \<and> property_get example_names example_effects ''sparkle'' = Some (Inr JUndefined)
   \<and> property_set example_names example_effects ''sparkle'' (JNum 5)
       = Some (Inr (example_effects\<lparr>ownProps := [(''sparkle'', JNum 5)]\<rparr>))
   \<and> ''ghost'' \<in> set example_names
   \<and> property_get example_names example_effects ''ghost'' = Some (Inr (JNum 50))
   \<and> (\<exists>m'. property_set example_names example_effects ''ghost'' (JNum 5) = Some (Inr m'))
   \<and> (\<exists>m'. effect_clone example_names example_effects = Inr m')
   \<and> (\<exists>m'. effect_clear example_effects = Inr m')"
proof -
  have n: "''sparkle'' \<notin> set example_names" "''ghost'' \<in> set example_names"
    by (simp_all add: example_names_def)
  have s: "''sparkle'' \<notin> set member_names"
    by (simp add: member_names_def object_member_names_def)
  have o: "lookup (ownProps example_effects) ''sparkle'' = JUndefined"
    "assign ''sparkle'' (JNum 5) (ownProps example_effects) = [(''sparkle'', JNum 5)]"
    by (simp_all add: example_effects_def lookup_def assign_def)
  have g: "lookup (u_effectValues example_effects) ''ghost'' = JNum 50"
    by (simp add: example_effects_def lookup_def)
  show ?thesis
    using effect_access_does_not_raise [OF example_effects_intact, of "''sparkle''" "JNum 5"]
      effect_access_does_not_raise [OF example_effects_intact, of "''ghost''" "JNum 5"]
      example_effects_intact n s
    unfolding o g by simp
qed

text \<open>
  Claim C4 as it is written has a get or a set of an unregistered name fail with a
  \<^verbatim>\<open>ConfigurationError\<close>. Both return normally.
\<close>

theorem effect_unregistered_name_counterexample:
  "''sparkle'' \<notin> set example_names
   \<and> property_get example_names example_effects ''sparkle'' = Some (Inr JUndefined)
   \<and> property_get example_names example_effects ''sparkle'' \<noteq> Some (Inl ConfigurationError)
   \<and> property_set example_names example_effects ''sparkle'' (JNum 5)
       = Some (Inr (example_effects\<lparr>ownProps := [(''sparkle'', JNum 5)]\<rparr>))
   \<and> property_set example_names example_effects ''sparkle'' (JNum 5) \<noteq> Some (Inl ConfigurationError)"
  by (simp add: property_get_def property_set_def member_names_def object_member_names_def
      effect_get_def effect_set_def example_names_def example_effects_def lookup_def assign_def)

subsection \<open>Clones\<close>

lemma find_original_ancestor:
  "ancestor sp r a \<Longrightarrow> parent (sp ! a) = None \<Longrightarrow> find_original sp r = Some a"
proof (induction rule: ancestor.induct)
  case (anc_self r)
  then show ?case by (subst find_original.simps) simp
next
  case (anc_parent r p a)
  then show ?case by (subst find_original.simps) simp
qed

lemma ancestor_in_heap: "ancestor sp r a \<Longrightarrow> r < length sp \<and> a < length sp"
  by (induction rule: ancestor.induct) auto

lemma wf_parents_root:
  assumes wf: "wf_parents sp"
  shows "r < length sp \<Longrightarrow> \<exists>a. ancestor sp r a \<and> parent (sp ! a) = None"
proof (induction r rule: less_induct)
  case (less r)
  show ?case
  proof (cases "parent (sp ! r)")
    case None
    with less.prems show ?thesis by (blast intro: anc_self)
  next
    case (Some p)
    with wf less.prems have "p < r" by (simp add: wf_parents_def)
    with less.IH [of p] less.prems obtain a where "ancestor sp p a" "parent (sp ! a) = None"
      by auto
    with Some less.prems show ?thesis by (blast intro: anc_parent)
  qed
qed

lemma root_unique:
  assumes "ancestor sp r a" "parent (sp ! a) = None" "ancestor sp r b" "parent (sp ! b) = None"
  shows "a = b"
  using find_original_ancestor [OF assms(1,2)] find_original_ancestor [OF assms(3,4)] by simp

lemma createClone_result:
  assumes v: "valid_sprite st this"
    and e: "effect_clone names (sprite_effects st this) = Inr m"
    and f: "find_original (sprites st) this = Some orig"
  shows "\<exists>st'. createClone names this st = Some (Inr st')
     \<and> length (sprites st') = Suc (length (sprites st))
     \<and> (\<forall>r. r < length (sprites st) \<and> r \<noteq> this \<longrightarrow> sprites st' ! r = sprites st ! r)
     \<and> sprites st' ! this = (sprites st ! this)\<lparr>clones := clones (sprites st ! this) @ [length (sprites st)]\<rparr>
     \<and> effectChain (sprites st' ! length (sprites st))
          = ChainClone (effectChain (sprites st ! orig)) (length (sprites st))
     \<and> parent (sprites st' ! length (sprites st)) = Some this
     \<and> clones (sprites st' ! length (sprites st)) = []
     \<and> effects (sprites st' ! length (sprites st)) = length (effectMaps st)
     \<and> u_vars (sprites st' ! length (sprites st)) = length (varMaps st)
     \<and> effectMaps st' = effectMaps st @ [m]
     \<and> varMaps st' = varMaps st @ [sprite_vars st this]
     \<and> arrays st' = arrays st
     \<and> (\<exists>ts. runningTriggers st' = runningTriggers st @ ts
              \<and> (\<forall>task \<in> set ts. snd task = length (sprites st)))"
proof -
  define me where "me = sprites st ! this"
  define c where "c = length (sprites st)"
  define chain where "chain = ChainClone (effectChain (sprites st ! orig)) c"
  define clone where "clone = me\<lparr>triggers := map (\<lambda>tr. \<lparr>trigger = trigger tr, options = options tr,
                                                              u_script = u_script tr\<rparr>) (triggers me),
                                    costumes := costumes me,
                                    sounds := sounds me,
                                    u_vars := length (varMaps st),
                                    u_speechBubble := \<lparr>bubble_text = [], bubble_style = ''say'',
                                                        bubble_timeout = None\<rparr>,
                                    effects := length (effectMaps st),
                                    effectChain := chain,
                                    audioEffects := AudioEffectMap chain,
                                    clones := [],
                                    parent := Some this\<rparr>"
  define ts where "ts = map (\<lambda>tr. (tr, c)) (filter (\<lambda>tr. matches tr CLONE_START []) (triggers clone))"
  define st' where "st' = startTriggers ts
                          (st\<lparr>sprites := (sprites st)[this := me\<lparr>clones := clones me @ [c]\<rparr>] @ [clone],
                              varMaps := varMaps st @ [varMaps st ! u_vars me],
                              effectMaps := effectMaps st @ [m]\<rparr>)"
  have lt: "this < length (sprites st)" using v by (simp add: valid_sprite_def)
  have e': "effect_clone names (effectMaps st ! effects (sprites st ! this)) = Inr m"
    using e by (simp add: sprite_effects_def)
  have cc: "createClone names this st = Some (Inr st')"
    using v e' f
    by (simp add: createClone_def valid_sprite_def Let_def st'_def ts_def clone_def chain_def c_def me_def)
  have sp: "sprites st' = (sprites st)[this := me\<lparr>clones := clones me @ [c]\<rparr>] @ [clone]"
    by (simp add: st'_def startTriggers_def)
  have 1: "length (sprites st') = Suc (length (sprites st))" by (simp add: sp)
  have 2: "\<forall>r. r < length (sprites st) \<and> r \<noteq> this \<longrightarrow> sprites st' ! r = sprites st ! r"
    by (simp add: sp nth_append)
  have 3: "sprites st' ! this = (sprites st ! this)\<lparr>clones := clones (sprites st ! this) @ [length (sprites st)]\<rparr>"
    using lt by (simp add: sp nth_append me_def c_def)
  have new: "sprites st' ! length (sprites st) = clone"
    by (simp add: sp nth_append)
  have 4: "effectChain (sprites st' ! length (sprites st))
          = ChainClone (effectChain (sprites st ! orig)) (length (sprites st))"
    by (simp add: new clone_def chain_def c_def)
  have 5: "parent (sprites st' ! length (sprites st)) = Some this"
    "clones (sprites st' ! length (sprites st)) = []"
    "effects (sprites st' ! length (sprites st)) = length (effectMaps st)"
    "u_vars (sprites st' ! length (sprites st)) = length (varMaps st)"
    by (simp_all add: new clone_def)
  have 6: "effectMaps st' = effectMaps st @ [m]"
    "varMaps st' = varMaps st @ [sprite_vars st this]"
    "arrays st' = arrays st"
    by (simp_all add: st'_def startTriggers_def sprite_vars_def me_def)
  have 7: "runningTriggers st' = runningTriggers st @ ts"
    by (simp add: st'_def startTriggers_def)
  have 8: "\<forall>task \<in> set ts. snd task = length (sprites st)"
    by (auto simp add: ts_def c_def)
  from cc 1 2 3 4 5 6 7 8 show ?thesis by blast
qed

lemma createClone_returns:
  assumes d: "distinct names" and wf: "wf_parents (sprites st)" and v: "valid_sprite st this"
  shows "\<exists>m orig. effect_clone names (sprite_effects st this) = Inr m
            \<and> find_original (sprites st) this = Some orig
            \<and> ancestor (sprites st) this orig \<and> parent (sprites st ! orig) = None"
proof -
  have "this < length (sprites st)" using v by (simp add: valid_sprite_def)
  from wf_parents_root [OF wf this] obtain orig where
    orig: "ancestor (sprites st) this orig" "parent (sprites st ! orig) = None" by blast
  then have "find_original (sprites st) this = Some orig" by (rule find_original_ancestor)
  moreover have "\<exists>m. effect_clone names (sprite_effects st this) = Inr m"
    using copy_effects_Inr d by (simp add: effect_clone_def new_EffectMap_distinct)
  ultimately show ?thesis using orig by blast
qed

lemma createClone_SomeD:
  assumes "createClone names r st = Some (Inr st')"
  shows "valid_sprite st r \<and> (\<exists>m orig. effect_clone names (sprite_effects st r) = Inr m
            \<and> find_original (sprites st) r = Some orig)"
proof -
  have v: "valid_sprite st r"
    using assms by (simp add: createClone_def valid_sprite_def split: if_splits)
  moreover have "\<exists>m. effect_clone names (sprite_effects st r) = Inr m"
    using assms v
    by (cases "effect_clone names (effectMaps st ! effects (sprites st ! r))")
      (simp_all add: createClone_def valid_sprite_def sprite_effects_def Let_def)
  moreover have "\<exists>orig. find_original (sprites st) r = Some orig"
    using assms v
    by (cases "effect_clone names (effectMaps st ! effects (sprites st ! r))";
        cases "find_original (sprites st) r")
      (simp_all add: createClone_def valid_sprite_def Let_def)
  ultimately show ?thesis by blast
qed

lemma createClone_tasks:
  assumes "createClone names r st = Some (Inr st')"
  shows "length (sprites st') = Suc (length (sprites st))
       \<and> (\<exists>ts. runningTriggers st' = runningTriggers st @ ts
              \<and> (\<forall>task \<in> set ts. snd task = length (sprites st)))"
proof -
  from createClone_SomeD [OF assms] obtain m orig where
    "valid_sprite st r" "effect_clone names (sprite_effects st r) = Inr m"
    "find_original (sprites st) r = Some orig" by blast
  from createClone_result [OF this] assms show ?thesis by auto
qed

lemma deleteThisClone_tasks:
  assumes "deleteThisClone r st = Some st'"
  shows "length (sprites st') = length (sprites st)
       \<and> set (runningTriggers st') \<subseteq> set (runningTriggers st)"
  using assms by (auto simp add: deleteThisClone_def split: if_splits option.splits)

lemma later_no_task:
  assumes "later names st st'" and "this < length (sprites st)"
    and "\<forall>task \<in> set (runningTriggers st). snd task \<noteq> this"
  shows "length (sprites st) \<le> length (sprites st')
       \<and> (\<forall>task \<in> set (runningTriggers st'). snd task \<noteq> this)"
  using assms
proof (induction rule: later.induct)
  case later_now
  then show ?case by simp
next
  case (later_createClone st1 r st2)
  then have ih: "length (sprites st) \<le> length (sprites st1)"
    "\<forall>task \<in> set (runningTriggers st1). snd task \<noteq> this" by auto
  from createClone_tasks [OF later_createClone.hyps(2)] obtain ts where
    ts: "length (sprites st2) = Suc (length (sprites st1))"
      "runningTriggers st2 = runningTriggers st1 @ ts"
      "\<forall>task \<in> set ts. snd task = length (sprites st1)" by blast
  have "\<forall>task \<in> set ts. snd task \<noteq> this"
    using ts(3) ih(1) later_createClone.prems(1) by auto
  then show ?case using ih ts(1,2) by auto
next
  case (later_deleteThisClone st1 r st2)
  then have ih: "length (sprites st) \<le> length (sprites st1)"
    "\<forall>task \<in> set (runningTriggers st1). snd task \<noteq> this" by auto
  from deleteThisClone_tasks [OF later_deleteThisClone.hyps(2)] ih show ?case by auto
qed

lemma createClone_wf_parents:
  assumes wf: "wf_parents (sprites st)" and cc: "createClone names this st = Some (Inr st')"
  shows "wf_parents (sprites st')"
proof -
  from createClone_SomeD [OF cc] obtain m orig where
    h: "valid_sprite st this" "effect_clone names (sprite_effects st this) = Inr m"
    "find_original (sprites st) this = Some orig" by blast
  from createClone_result [OF h] cc have
    len: "length (sprites st') = Suc (length (sprites st))"
    and others: "\<And>r. r < length (sprites st) \<Longrightarrow> r \<noteq> this \<Longrightarrow> sprites st' ! r = sprites st ! r"
    and me: "sprites st' ! this = (sprites st ! this)\<lparr>clones := clones (sprites st ! this) @ [length (sprites st)]\<rparr>"
    and new: "parent (sprites st' ! length (sprites st)) = Some this"
    by auto
  have lt: "this < length (sprites st)" using h(1) by (simp add: valid_sprite_def)
  have "p < r" if r: "r < length (sprites st')" and p: "parent (sprites st' ! r) = Some p" for r p
  proof -
    consider "r = length (sprites st)" | "r = this" | "r < length (sprites st)" "r \<noteq> this"
      using r len by linarith
    then show ?thesis
    proof cases
      case 1
      then show ?thesis using p new lt by simp
    next
      case 2
      then have "parent (sprites st ! this) = Some p" using p me by simp
      then show ?thesis using wf lt 2 by (simp add: wf_parents_def)
    next
      case 3
      then have "parent (sprites st ! r) = Some p" using p others by simp
      then show ?thesis using wf 3 by (simp add: wf_parents_def)
    qed
  qed
  then show ?thesis by (simp add: wf_parents_def)
qed

lemma example_project_wf: "wf_parents (sprites example_project)"
proof -
  have "p < r" if "r < 2" "parent ([example_sprite, example_clone] ! r) = Some p" for r p
  proof -
    from that(1) consider "r = 0" | "r = 1" by linarith
    then show ?thesis using that(2) by cases (simp_all add: example_sprite_def example_clone_def)
  qed
  then show ?thesis by (simp add: wf_parents_def example_project_def)
qed

lemma example_project_valid: "valid_sprite example_project 0" "valid_sprite example_project 1"
  by (simp_all add: valid_sprite_def example_project_def example_sprite_def example_clone_def)

lemma example_names_distinct: "distinct example_names" by (simp add: example_names_def)

lemma example_project_length: "length (sprites example_project) = 2" by (simp add: example_project_def)

lemma example_clone_parent: "parent (sprites example_project ! 1) = Some 0"
    by (simp add: example_project_def example_clone_def)

lemma example_clone_chain: "effectChain (sprites example_project ! 1) = NewChain 1"
    by (simp add: example_project_def example_clone_def)

lemma example_sprite_chain: "effectChain (sprites example_project ! 0) = NewChain 0"
    by (simp add: example_project_def example_sprite_def)

lemma example_sprite_parent: "parent (sprites example_project ! 0) = None"
    by (simp add: example_project_def example_sprite_def)

lemma example_ancestor_self: "ancestor (sprites example_project) 0 0"
    by (rule anc_self) (simp add: example_project_length)

lemma example_ancestor: "ancestor (sprites example_project) 1 0"
    by (rule anc_parent [OF _ example_clone_parent example_ancestor_self]) (simp add: example_project_length)

lemma example_tasks_without_clone:
  "filter (\<lambda>(tr, target). target \<noteq> 1) (runningTriggers example_project)
     = [(\<lparr>trigger = BROADCAST, options = [(''name'', JStr ''go'')], u_script = 1\<rparr>, 0)]"
  by (simp add: example_project_def)

lemma example_sprite_clones: "clones (sprites example_project ! 0) = [1]"
  by (simp add: example_project_def example_sprite_def)










text \<open>
  Claim C5. \<open>this\<close> is a sprite of a heap in which every parent was created before its
  clones. Without a parent, \<^verbatim>\<open>deleteThisClone()\<close> returns the project as it was. With the
  parent \<open>p\<close>, it returns a project in which \<open>this\<close> is gone from the clones of \<open>p\<close> and
  the running triggers are those of before whose target is not \<open>this\<close>; every other
  sprite, the effect maps and the variables are as before. The running triggers are what
  the scheduler resumes (the scheduler itself, of \<^verbatim>\<open>Project.js\<close>, is not among the
  sources): none of them has the target \<open>this\<close>, and none has in any state that later
  calls of \<^verbatim>\<open>createClone\<close> and \<^verbatim>\<open>deleteThisClone\<close> lead to.
\<close>

theorem deleteThisClone_removes_clone_and_tasks:
  assumes lt: "this < length (sprites st)" and wf: "wf_parents (sprites st)"
  shows "(parent (sprites st ! this) = None \<longrightarrow> deleteThisClone this st = Some st)
       \<and> (\<forall>p. parent (sprites st ! this) = Some p \<longrightarrow>
            (\<exists>st'. deleteThisClone this st = Some st'
               \<and> clones (sprites st' ! p) = filter (\<lambda>clone. clone \<noteq> this) (clones (sprites st ! p))
               \<and> this \<notin> set (clones (sprites st' ! p))
               \<and> runningTriggers st' = filter (\<lambda>(tr, target). target \<noteq> this) (runningTriggers st)
               \<and> (\<forall>task \<in> set (runningTriggers st'). snd task \<noteq> this)
               \<and> (\<forall>st''. later names st' st'' \<longrightarrow>
                     (\<forall>task \<in> set (runningTriggers st''). snd task \<noteq> this))
               \<and> length (sprites st') = length (sprites st)
               \<and> (\<forall>r. r \<noteq> p \<longrightarrow> sprites st' ! r = sprites st ! r)
               \<and> effectMaps st' = effectMaps st \<and> varMaps st' = varMaps st))"
proof -
  have none: "parent (sprites st ! this) = None \<longrightarrow> deleteThisClone this st = Some st"
    using lt by (simp add: deleteThisClone_def)
  have some: "\<exists>st'. deleteThisClone this st = Some st'
               \<and> clones (sprites st' ! p) = filter (\<lambda>clone. clone \<noteq> this) (clones (sprites st ! p))
               \<and> this \<notin> set (clones (sprites st' ! p))
               \<and> runningTriggers st' = filter (\<lambda>(tr, target). target \<noteq> this) (runningTriggers st)
               \<and> (\<forall>task \<in> set (runningTriggers st'). snd task \<noteq> this)
               \<and> (\<forall>st''. later names st' st'' \<longrightarrow>
                     (\<forall>task \<in> set (runningTriggers st''). snd task \<noteq> this))
               \<and> length (sprites st') = length (sprites st)
               \<and> (\<forall>r. r \<noteq> p \<longrightarrow> sprites st' ! r = sprites st ! r)
               \<and> effectMaps st' = effectMaps st \<and> varMaps st' = varMaps st"
    if p: "parent (sprites st ! this) = Some p" for p
  proof -
    have "p < this" using wf lt p by (simp add: wf_parents_def)
    then have pl: "p < length (sprites st)" using lt by simp
    define st' where "st' = st\<lparr>sprites := (sprites st)
                          [p := (sprites st ! p)\<lparr>clones := filter (\<lambda>clone. clone \<noteq> this)
                                                            (clones (sprites st ! p))\<rparr>],
                        runningTriggers := filter (\<lambda>(tr, target). target \<noteq> this)
                                             (runningTriggers st)\<rparr>"
    have 1: "deleteThisClone this st = Some st'"
      using lt p pl by (simp add: deleteThisClone_def st'_def)
    have 2: "clones (sprites st' ! p) = filter (\<lambda>clone. clone \<noteq> this) (clones (sprites st ! p))"
      using pl by (simp add: st'_def)
    have 3: "this \<notin> set (clones (sprites st' ! p))" by (simp add: 2)
    have 4: "runningTriggers st' = filter (\<lambda>(tr, target). target \<noteq> this) (runningTriggers st)"
      by (simp add: st'_def)
    have 5: "\<forall>task \<in> set (runningTriggers st'). snd task \<noteq> this"
      by (auto simp add: 4)
    have l: "length (sprites st') = length (sprites st)" by (simp add: st'_def)
    have 6: "\<forall>st''. later names st' st'' \<longrightarrow> (\<forall>task \<in> set (runningTriggers st''). snd task \<noteq> this)"
    proof (intro allI impI)
      fix st''
      assume "later names st' st''"
      from later_no_task [OF this _ 5] lt l
      show "\<forall>task \<in> set (runningTriggers st''). snd task \<noteq> this" by simp
    qed
    have 7: "\<forall>r. r \<noteq> p \<longrightarrow> sprites st' ! r = sprites st ! r" by (simp add: st'_def)
    have 8: "effectMaps st' = effectMaps st \<and> varMaps st' = varMaps st" by (simp add: st'_def)
    from 1 2 3 4 5 6 l 7 8 show ?thesis by blast
  qed
  from none some show ?thesis by blast
qed

theorem deleteThisClone_removes_clone_and_tasks_witness:
  "1 < length (sprites example_project) \<and> wf_parents (sprites example_project)
   \<and> parent (sprites example_project ! 1) = Some 0
   \<and> clones (sprites example_project ! 0) = [1]
   \<and> (\<exists>st'. deleteThisClone 1 example_project = Some st'
          \<and> clones (sprites st' ! 0) = []
          \<and> runningTriggers st'
               = [(\<lparr>trigger = BROADCAST, options = [(''name'', JStr ''go'')], u_script = 1\<rparr>, 0)])
   \<and> parent (sprites example_project ! 0) = None
   \<and> deleteThisClone 0 example_project = Some example_project"
proof -
  have lt1: "1 < length (sprites example_project)" by (simp add: example_project_length)
  have lt0: "0 < length (sprites example_project)" by (simp add: example_project_length)
  from deleteThisClone_removes_clone_and_tasks [OF lt1 example_project_wf, of example_names] example_clone_parent
  obtain st' where
    h1: "deleteThisClone 1 example_project = Some st'"
    and h2: "clones (sprites st' ! 0) = filter (\<lambda>clone. clone \<noteq> 1) (clones (sprites example_project ! 0))"
    and h3: "runningTriggers st' = filter (\<lambda>(tr, target). target \<noteq> 1) (runningTriggers example_project)"
    by blast
  have g2: "clones (sprites st' ! 0) = []" using h2 unfolding example_sprite_clones by simp
  have g3: "runningTriggers st'
               = [(\<lparr>trigger = BROADCAST, options = [(''name'', JStr ''go'')], u_script = 1\<rparr>, 0)]"
    using h3 unfolding example_tasks_without_clone .
  from h1 g2 g3 have del: "\<exists>st'. deleteThisClone 1 example_project = Some st'
          \<and> clones (sprites st' ! 0) = []
          \<and> runningTriggers st'
               = [(\<lparr>trigger = BROADCAST, options = [(''name'', JStr ''go'')], u_script = 1\<rparr>, 0)]"
    by blast
  from deleteThisClone_removes_clone_and_tasks [OF lt0 example_project_wf, of example_names] example_sprite_parent
  have noop: "deleteThisClone 0 example_project = Some example_project" by blast
  from lt1 example_project_wf example_clone_parent example_sprite_clones del example_sprite_parent noop show ?thesis by blast
qed

text \<open>
  Claim C6. In a heap in which every parent was created before its clones, every sprite
  \<open>this\<close> has exactly one top-most ancestor \<open>orig\<close> (an ancestor without a parent), at
  whatever depth \<open>this\<close> is. \<^verbatim>\<open>createClone()\<close> returns, and in the project that it returns
  the new sprite has the clone of the effect chain of \<open>orig\<close>, its parent is \<open>this\<close> and
  it is among the clones of \<open>this\<close>. In the example the clone of a clone gets the chain
  of the original sprite, not the chain of the clone it was made from.
\<close>

theorem createClone_chain_of_original:
  assumes d: "distinct names" and wf: "wf_parents (sprites st)" and v: "valid_sprite st this"
  shows "\<exists>st' orig. createClone names this st = Some (Inr st')
          \<and> ancestor (sprites st) this orig \<and> parent (sprites st ! orig) = None
          \<and> (\<forall>a. ancestor (sprites st) this a \<and> parent (sprites st ! a) = None \<longrightarrow> a = orig)
          \<and> effectChain (sprites st' ! length (sprites st))
               = ChainClone (effectChain (sprites st ! orig)) (length (sprites st))
          \<and> parent (sprites st' ! length (sprites st)) = Some this
          \<and> length (sprites st) \<in> set (clones (sprites st' ! this))
          \<and> length (sprites st') = Suc (length (sprites st))
          \<and> wf_parents (sprites st')"
proof -
  from createClone_returns [OF d wf v] obtain m orig where
    h: "effect_clone names (sprite_effects st this) = Inr m"
      "find_original (sprites st) this = Some orig"
      "ancestor (sprites st) this orig" "parent (sprites st ! orig) = None" by blast
  from createClone_result [OF v h(1,2)] obtain st' where
    st': "createClone names this st = Some (Inr st')"
      "length (sprites st') = Suc (length (sprites st))"
      "sprites st' ! this = (sprites st ! this)\<lparr>clones := clones (sprites st ! this) @ [length (sprites st)]\<rparr>"
      "effectChain (sprites st' ! length (sprites st))
          = ChainClone (effectChain (sprites st ! orig)) (length (sprites st))"
      "parent (sprites st' ! length (sprites st)) = Some this"
    by blast
  have u: "\<forall>a. ancestor (sprites st) this a \<and> parent (sprites st ! a) = None \<longrightarrow> a = orig"
    using root_unique h(3,4) by blast
  have mem: "length (sprites st) \<in> set (clones (sprites st' ! this))"
    by (simp add: st'(3))
  have "wf_parents (sprites st')" using wf st'(1) by (rule createClone_wf_parents)
  with st' h(3,4) u mem show ?thesis by blast
qed

theorem createClone_chain_of_original_witness:
  "distinct example_names \<and> wf_parents (sprites example_project) \<and> valid_sprite example_project 1
   \<and> parent (sprites example_project ! 1) = Some 0
   \<and> effectChain (sprites example_project ! 1) = NewChain 1
   \<and> (\<exists>st'. createClone example_names 1 example_project = Some (Inr st')
          \<and> effectChain (sprites st' ! 2) = ChainClone (NewChain 0) 2
          \<and> parent (sprites st' ! 2) = Some 1
          \<and> 2 \<in> set (clones (sprites st' ! 1)))"
proof -
  from createClone_chain_of_original [OF example_names_distinct example_project_wf example_project_valid(2)]
  obtain st' orig where
    h1: "createClone example_names 1 example_project = Some (Inr st')"
    and h2: "\<forall>a. ancestor (sprites example_project) 1 a \<and> parent (sprites example_project ! a) = None \<longrightarrow> a = orig"
    and h3: "effectChain (sprites st' ! length (sprites example_project))
               = ChainClone (effectChain (sprites example_project ! orig)) (length (sprites example_project))"
    and h4: "parent (sprites st' ! length (sprites example_project)) = Some 1"
    and h5: "length (sprites example_project) \<in> set (clones (sprites st' ! 1))"
    by blast
  from h2 example_ancestor example_sprite_parent have o: "orig = 0" by blast
  have g3: "effectChain (sprites st' ! 2) = ChainClone (NewChain 0) 2"
    using h3 unfolding o example_project_length example_sprite_chain .
  have g4: "parent (sprites st' ! 2) = Some 1" using h4 unfolding example_project_length .
  have g5: "2 \<in> set (clones (sprites st' ! 1))" using h5 unfolding example_project_length .
  from h1 g3 g4 g5 have "\<exists>st'. createClone example_names 1 example_project = Some (Inr st')
          \<and> effectChain (sprites st' ! 2) = ChainClone (NewChain 0) 2
          \<and> parent (sprites st' ! 2) = Some 1
          \<and> 2 \<in> set (clones (sprites st' ! 1))" by blast
  with example_names_distinct example_project_wf example_project_valid(2) example_clone_parent example_clone_chain show ?thesis by blast
qed




end
